theory Spec2Isabelle
  imports Main "HOL-Library.Word" "HOL-Library.Sublist"
begin

unbundle bit_operations_syntax

section \<open>Data model\<close>

text \<open>
  The structs of the package. Go's \<open>int\<close> and \<open>uint\<close> are taken 64 bits wide, as on
  the platforms the package is built for. The \<open>uint\<close> fields are natural numbers here;
  every conversion into \<open>uint\<close> that can change a value is written out
  (\<open>uint_of_int\<close>). Field names carry a suffix where two structs share a name.
\<close>

record CPU =
  Vendor :: string
  Model :: string
  Speed_CPU :: nat
  Cache :: nat
  Cpus :: nat
  Cores :: nat
  Threads :: nat
  Flags :: string

record NetworkDevice =
  Name :: string
  Driver :: string
  IpAddresses :: "string list"
  MACAddress :: string
  Port :: string
  Speed :: nat

text \<open>
  Modelled from the spec: the aggregate \<open>SysInfo\<close> and its \<open>Node\<close> part are declared
  outside the two files at hand. Only the fields these files touch are kept: the hostname
  and the hypervisor name (the virtualization hint of the topology reader), the CPU facts
  and the list of network device facts.
\<close>

record Node =
  Hostname :: string
  Hypervisor :: string

record SysInfo =
  Node_si :: Node
  CPU_si :: CPU
  Network :: "NetworkDevice list"

type_synonym errno = nat

text \<open>\<open>struct ethtool_cmd\<close>, the buffer of the legacy query (\<open>ETHTOOL_GSET\<close>).\<close>

record ethtool_cmd =
  Cmd_gset :: "32 word"
  Supported_gset :: "32 word"
  Advertising_gset :: "32 word"
  Speed_gset :: "16 word"
  Duplex_gset :: "8 word"
  Port_gset :: "8 word"
  PhyAddress_gset :: "8 word"
  Transceiver_gset :: "8 word"
  Autoneg_gset :: "8 word"
  MdioSupport_gset :: "8 word"
  Maxtxpkt_gset :: "32 word"
  Maxrxpkt_gset :: "32 word"
  SpeedHi_gset :: "16 word"
  EthTpMdix_gset :: "8 word"
  Reserved2_gset :: "8 word"
  LpAdvertising_gset :: "32 word"
  Reserved_gset :: "32 word list"

text \<open>
  \<open>ethtoolLinkSettingType\<close>, the buffer of the modern query
  (\<open>ETHTOOL_GLINKSETTINGS\<close>). \<open>LinkModeMasksNwords\<close> is an \<open>int8\<close>: an
  8-bit word read through \<open>sint\<close>.
\<close>

record ethtoolLinkSettingType =
  Cmd_ls :: "32 word"
  Speed_ls :: "32 word"
  Duplex_ls :: "8 word"
  Port_ls :: "8 word"
  PhyAddress_ls :: "8 word"
  Autoneg_ls :: "8 word"
  MdioSupport_ls :: "8 word"
  EthTpMdix_ls :: "8 word"
  EthTpMdixCtrl_ls :: "8 word"
  LinkModeMasksNwords :: "8 word"
  Transceiver_ls :: "8 word"
  Reserved1_ls :: "32 word list"
  Reserved_ls :: "32 word list"

definition zero_ethtool_cmd :: ethtool_cmd where
  "zero_ethtool_cmd =
     \<lparr>Cmd_gset = 0, Supported_gset = 0, Advertising_gset = 0, Speed_gset = 0,
      Duplex_gset = 0, Port_gset = 0, PhyAddress_gset = 0, Transceiver_gset = 0,
      Autoneg_gset = 0, MdioSupport_gset = 0, Maxtxpkt_gset = 0, Maxrxpkt_gset = 0,
      SpeedHi_gset = 0, EthTpMdix_gset = 0, Reserved2_gset = 0, LpAdvertising_gset = 0,
      Reserved_gset = [0, 0]\<rparr>"

definition zero_ethtoolLinkSetting :: ethtoolLinkSettingType where
  "zero_ethtoolLinkSetting =
     \<lparr>Cmd_ls = 0, Speed_ls = 0, Duplex_ls = 0, Port_ls = 0, PhyAddress_ls = 0,
      Autoneg_ls = 0, MdioSupport_ls = 0, EthTpMdix_ls = 0, EthTpMdixCtrl_ls = 0,
      LinkModeMasksNwords = 0, Transceiver_ls = 0, Reserved1_ls = [0, 0, 0],
      Reserved_ls = [0, 0, 0, 0, 0, 0, 0]\<rparr>"

section \<open>Link inspector: decoding the legacy bitmask\<close>

definition portLabels :: "string list" where
  "portLabels = [''tp'', ''aui'', ''mii'', ''fibre'', ''bnc'']"

text \<open>
  The \<open>range\<close> loop of \<open>getPortType\<close>: \<open>i\<close> is the index of the label at the head
  of the remaining list, \<open>port\<close> the string built so far.
\<close>

fun getPortType_loop :: "32 word \<Rightarrow> nat \<Rightarrow> string list \<Rightarrow> string \<Rightarrow> string" where
  "getPortType_loop supp i [] port = port"
| "getPortType_loop supp i (p # ps) port =
     getPortType_loop supp (Suc i) ps
       (if supp AND push_bit (i + 7) 1 > 0 then port @ p @ ''/'' else port)"

text \<open>\<open>strings.TrimRight\<close>: every trailing byte that belongs to the cutset is removed.\<close>

definition strings_TrimRight :: "string \<Rightarrow> string \<Rightarrow> string" where
  "strings_TrimRight s cutset = rev (dropWhile (\<lambda>c. c \<in> set cutset) (rev s))"

definition getPortType :: "32 word \<Rightarrow> string" where
  "getPortType supp = strings_TrimRight (getPortType_loop supp 0 portLabels []) ''/''"

definition getPortTypeForGLinkSetting :: "8 word \<Rightarrow> string" where
  "getPortTypeForGLinkSetting supp =
     (if supp = 0x00 then ''twisted pair''
      else if supp = 0x01 then ''AUI''
      else if supp = 0x02 then ''media-independent''
      else if supp = 0x03 then ''fibre''
      else if supp = 0x04 then ''BNC''
      else if supp = 0x05 then ''direct attach''
      else if supp = 0xef then ''none''
      else if supp = 0xff then ''other''
      else [])"

definition getMaxSpeed :: "32 word \<Rightarrow> nat" where
  "getMaxSpeed supp =
     (if supp AND 0x78000000 > 0 then 56000
      else if supp AND 0x07800000 > 0 then 40000
      else if supp AND 0x00600000 > 0 then 20000
      else if supp AND 0x001c1000 > 0 then 10000
      else if supp AND 0x00008000 > 0 then 2500
      else if supp AND 0x00020030 > 0 then 1000
      else if supp AND 0x0000000c > 0 then 100
      else if supp AND 0x00000003 > 0 then 10
      else 0)"

section \<open>Link inspector: the host and the two capability queries\<close>

text \<open>
  What the host answers for one entry of the device directory. Each call the code makes
  has its own outcome, so nothing is assumed about two calls agreeing:
  \<^item> \<open>glink_socket\<close>, \<open>gset_socket\<close>: \<open>syscall.Socket\<close> of the modern and of the legacy
    query (\<open>Inl\<close> the error, \<open>Inr\<close> the descriptor);
  \<^item> \<open>glink_ioctl1\<close>, \<open>glink_ioctl2\<close>: the first and the second \<open>SIOCETHTOOL\<close> request
    of the modern query, from the interface name of the request and the buffer passed
    to the error number and the buffer as the kernel leaves it;
  \<^item> \<open>gset_ioctl\<close>: the same for the legacy query;
  \<^item> \<open>byName\<close>: \<open>net.InterfaceByName\<close>, \<open>None\<close> when it fails, otherwise the string
    forms of what \<open>Addrs\<close> returns for the interface (nothing when \<open>Addrs\<close> fails);
  \<^item> \<open>address_file\<close>: what \<open>slurpFile\<close> (declared outside the files at hand) returns for
    the \<open>address\<close> attribute file;
  \<^item> \<open>driver_link\<close>: \<open>os.Readlink\<close> of \<open>device/driver\<close> below the entry.
\<close>

record dev_host =
  glink_socket :: "errno + nat"
  glink_ioctl1 :: "string \<Rightarrow> ethtoolLinkSettingType \<Rightarrow> errno \<times> ethtoolLinkSettingType"
  glink_ioctl2 :: "string \<Rightarrow> ethtoolLinkSettingType \<Rightarrow> errno \<times> ethtoolLinkSettingType"
  gset_socket :: "errno + nat"
  gset_ioctl :: "string \<Rightarrow> ethtool_cmd \<Rightarrow> errno \<times> ethtool_cmd"
  byName :: "string list option"
  address_file :: string
  driver_link :: "errno + string"

text \<open>
  An entry of the device directory as \<open>ioutil.ReadDir\<close> lists it (by \<open>lstat\<close>, so a
  symbolic link is listed whether or not its target exists): a symbolic link with its
  link text and whether the target exists, or anything else.
\<close>

datatype entry_kind = Symlink string bool | NotALink

record dir_entry =
  ent_name :: string
  ent_kind :: entry_kind
  ent_host :: dev_host

text \<open>
  \<open>os.Readlink\<close> is \<open>readlink(2)\<close>: it returns the text of a symbolic link without
  following it, and fails with \<open>EINVAL\<close> (22) on an entry that is not a symbolic link.
\<close>

definition os_Readlink :: "entry_kind \<Rightarrow> errno + string" where
  "os_Readlink k = (case k of Symlink target _ \<Rightarrow> Inr target | NotALink \<Rightarrow> Inl 22)"

definition resolvable :: "dir_entry \<Rightarrow> bool" where
  "resolvable e = (case ent_kind e of Symlink _ ex \<Rightarrow> ex | NotALink \<Rightarrow> False)"

definition dangling :: "dir_entry \<Rightarrow> bool" where
  "dangling e = (case ent_kind e of Symlink _ ex \<Rightarrow> \<not> ex | NotALink \<Rightarrow> False)"

text \<open>
  \<open>copy(ifr.Name[:], name+"\000")\<close>: the 16 bytes of the request's name field, the
  name and a NUL byte cut at 16 bytes, the rest of the zeroed array left as it is.
\<close>

definition ifr_Name :: "string \<Rightarrow> string" where
  "ifr_Name name =
     (let src = take 16 (name @ [CHR 0x00]) in src @ replicate (16 - length src) (CHR 0x00))"

datatype glink_error =
    SocketErr errno
  | NwordsCheck "8 word"
  | GLinkSettingMaskErr errno
  | GLinkSettingErr errno

definition getSupported :: "dev_host \<Rightarrow> string \<Rightarrow> 32 word" where
  "getSupported h name =
     (case gset_socket h of
        Inl err \<Rightarrow> 0
      | Inr fd \<Rightarrow>
          (let ethtool = zero_ethtool_cmd\<lparr>Cmd_gset := 0x1\<rparr>;
               (errno, ethtool') = gset_ioctl h (ifr_Name name) ethtool
           in if errno = 0 then Supported_gset ethtool' else 0))"

definition getSupportedWithEthtoolGLinkSetting ::
  "dev_host \<Rightarrow> string \<Rightarrow> glink_error + ethtoolLinkSettingType" where
  "getSupportedWithEthtoolGLinkSetting h name =
     (case glink_socket h of
        Inl err \<Rightarrow> Inl (SocketErr err)
      | Inr fd \<Rightarrow>
          (let ethtoolLinkSetting = zero_ethtoolLinkSetting\<lparr>Cmd_ls := 0x0000004c\<rparr>;
               (errno, s1) = glink_ioctl1 h (ifr_Name name) ethtoolLinkSetting
           in if errno = 0 then
                (if 0 \<le> sint (LinkModeMasksNwords s1) \<or> Cmd_ls s1 \<noteq> 0x0000004c
                 then Inl (NwordsCheck (LinkModeMasksNwords s1))
                 else
                   (let s2 = s1\<lparr>LinkModeMasksNwords := - LinkModeMasksNwords s1\<rparr>;
                        (errno2, s3) = glink_ioctl2 h (ifr_Name name) s2
                    in if errno2 = 0 then Inr s3 else Inl (GLinkSettingMaskErr errno2)))
              else Inl (GLinkSettingErr errno)))"

text \<open>
  \<open>(*Interface).Addrs\<close> on what \<open>net.InterfaceByName\<close> returned: the method answers a
  nil receiver with no addresses and an error, which the caller drops.
\<close>

definition Interface_Addrs :: "string list option \<Rightarrow> string list" where
  "Interface_Addrs byNameInterface = (case byNameInterface of None \<Rightarrow> [] | Some as \<Rightarrow> as)"

text \<open>\<open>path.Base\<close>.\<close>

definition path_Base :: "string \<Rightarrow> string" where
  "path_Base p =
     (if p = [] then ''.''
      else (let q = rev (dropWhile (\<lambda>c. c = CHR ''/'') (rev p));
                b = rev (takeWhile (\<lambda>c. c \<noteq> CHR ''/'') (rev q))
            in if b = [] then ''/'' else b))"

text \<open>
  The body of the loop of \<open>getNetworkInfo\<close> for one entry: \<open>None\<close> is \<open>continue\<close>,
  \<open>Some device\<close> the fact appended. The variable \<open>err\<close> tested before the addresses
  are collected is the one assigned by the modern query: the result of
  \<open>net.InterfaceByName\<close> is bound to \<open>byNameInterface\<close> and its error dropped.
\<close>

definition deviceFact :: "dir_entry \<Rightarrow> NetworkDevice option" where
  "deviceFact link =
     (case os_Readlink (ent_kind link) of
        Inl err \<Rightarrow> None
      | Inr _ \<Rightarrow>
          (let h = ent_host link;
               r = getSupportedWithEthtoolGLinkSetting h (ent_name link);
               (portType, maxSpeed) =
                 (case r of
                    Inl err \<Rightarrow>
                      (let supp = getSupported h (ent_name link)
                       in (getPortType supp, getMaxSpeed supp))
                  | Inr gLinkSetting \<Rightarrow>
                      (getPortTypeForGLinkSetting (Port_ls gLinkSetting),
                       unat (Speed_ls gLinkSetting)));
               byNameInterface = byName h;
               deviceAddresses =
                 (case r of Inl err \<Rightarrow> [] | Inr _ \<Rightarrow> Interface_Addrs byNameInterface);
               device = \<lparr>Name = ent_name link, Driver = [], IpAddresses = deviceAddresses,
                         MACAddress = address_file h, Port = portType, Speed = maxSpeed\<rparr>
           in Some (case driver_link h of
                      Inr driver \<Rightarrow> device\<lparr>Driver := path_Base driver\<rparr>
                    | Inl err \<Rightarrow> device)))"

fun getNetworkInfo_loop :: "dir_entry list \<Rightarrow> NetworkDevice list \<Rightarrow> NetworkDevice list" where
  "getNetworkInfo_loop [] network = network"
| "getNetworkInfo_loop (link # devices) network =
     (case deviceFact link of
        None \<Rightarrow> getNetworkInfo_loop devices network
      | Some device \<Rightarrow> getNetworkInfo_loop devices (network @ [device]))"

text \<open>
  \<open>getNetworkInfo\<close>: \<open>devices\<close> is the result of \<open>ioutil.ReadDir\<close> on the device
  directory, \<open>Inl\<close> its error.
\<close>

definition getNetworkInfo :: "errno + dir_entry list \<Rightarrow> SysInfo \<Rightarrow> SysInfo" where
  "getNetworkInfo devices si =
     (case devices of
        Inl err \<Rightarrow> si
      | Inr ds \<Rightarrow> si\<lparr>Network := getNetworkInfo_loop ds []\<rparr>)"

section \<open>Topology reader: the library functions it calls\<close>

text \<open>
  \<open>reTwoColumns\<close> is the regular expression \<open>\t+: \<close>. A match that starts at the
  head of the string is a run of tabs (the whole run: the byte after it has to be the
  colon) and then colon and space; the result is the text after the match.
\<close>

definition match_reTwoColumns :: "string \<Rightarrow> string option" where
  "match_reTwoColumns s =
     (case s of
        [] \<Rightarrow> None
      | c # cs \<Rightarrow>
          (if c = CHR 0x09
           then (let r = dropWhile (\<lambda>x. x = CHR 0x09) cs
                 in if take 2 r = '': '' then Some (drop 2 r) else None)
           else None))"

text \<open>The leftmost match: the text before it and the text after it.\<close>

fun find_reTwoColumns :: "string \<Rightarrow> (string \<times> string) option" where
  "find_reTwoColumns [] = None"
| "find_reTwoColumns (c # cs) =
     (case match_reTwoColumns (c # cs) of
        Some after \<Rightarrow> Some ([], after)
      | None \<Rightarrow>
          (case find_reTwoColumns cs of
             None \<Rightarrow> None
           | Some (before, after) \<Rightarrow> Some (c # before, after)))"

text \<open>
  \<open>reTwoColumns.Split(s, 2)\<close>: the empty string gives one empty piece, a string
  without a match gives itself as the only piece, otherwise the string is cut at the
  leftmost match into two pieces. The result is never nil (the empty list here).
\<close>

definition reTwoColumns_Split2 :: "string \<Rightarrow> string list" where
  "reTwoColumns_Split2 s =
     (if s = [] then [[]]
      else (case find_reTwoColumns s of
              None \<Rightarrow> [s]
            | Some (before, after) \<Rightarrow> [before, after]))"

text \<open>
  \<open>reExtraSpace.ReplaceAllLiteralString(src, " ")\<close> for the expression \<open> +\<close>: the
  matches are the maximal runs of spaces, from left to right, and each becomes one space.
\<close>

function reExtraSpace_ReplaceAll :: "string \<Rightarrow> string" where
  "reExtraSpace_ReplaceAll [] = []"
| "reExtraSpace_ReplaceAll (c # cs) =
     (if c = CHR '' ''
      then CHR '' '' # reExtraSpace_ReplaceAll (dropWhile (\<lambda>x. x = CHR '' '') cs)
      else c # reExtraSpace_ReplaceAll cs)"
  by pat_completeness auto
termination
  by (relation "measure length") (auto simp: le_imp_less_Suc length_dropWhile_le)

text \<open>
  \<open>strings.Replace(s, old, new, 1)\<close> for a non-empty \<open>old\<close>: the leftmost occurrence
  of \<open>old\<close> is replaced, a string without one is returned as it is.
\<close>

fun strings_Replace1 :: "string \<Rightarrow> string \<Rightarrow> string \<Rightarrow> string" where
  "strings_Replace1 [] old new = []"
| "strings_Replace1 (c # cs) old new =
     (if prefix old (c # cs) then new @ drop (length old) (c # cs)
      else c # strings_Replace1 cs old new)"

definition is_digit :: "char \<Rightarrow> bool" where
  "is_digit c = (48 \<le> (of_char c :: nat) \<and> (of_char c :: nat) \<le> 57)"

definition decimal :: "string \<Rightarrow> nat" where
  "decimal s = foldl (\<lambda>n c. 10 * n + (of_char c - 48)) 0 s"

text \<open>
  \<open>strconv.ParseUint(s, 10, bitSize)\<close>: a non-empty string of decimal digits whose
  value fits into \<open>bitSize\<close> bits; everything else is an error.
\<close>

definition strconv_ParseUint :: "string \<Rightarrow> nat \<Rightarrow> nat option" where
  "strconv_ParseUint s bitSize =
     (if s \<noteq> [] \<and> list_all is_digit s \<and> decimal s < 2 ^ bitSize
      then Some (decimal s) else None)"

text \<open>
  \<open>strconv.ParseInt(s, 10, bitSize)\<close>: an optional sign, then a non-empty string of
  decimal digits; a value outside the signed range of \<open>bitSize\<close> bits is an error.
\<close>

definition strconv_ParseInt :: "string \<Rightarrow> nat \<Rightarrow> int option" where
  "strconv_ParseInt s bitSize =
     (case s of
        [] \<Rightarrow> None
      | c # cs \<Rightarrow>
          (let neg = (c = CHR ''-'');
               ds = (if c = CHR ''+'' \<or> c = CHR ''-'' then cs else s)
           in if ds \<noteq> [] \<and> list_all is_digit ds
              then (let un = decimal ds; cutoff = 2 ^ (bitSize - 1)
                    in if \<not> neg \<and> cutoff \<le> un then None
                       else if neg \<and> cutoff < un then None
                       else Some (if neg then - int un else int un))
              else None))"

text \<open>
  \<open>reCacheSize.FindStringSubmatch(s)\<close> for the expression \<open>^(\d+) KB$\<close>: the whole
  match and the group of digits, or nil (the empty list here). The group is the whole
  leading run of digits, since the byte after it has to be the space.
\<close>

definition reCacheSize_FindStringSubmatch :: "string \<Rightarrow> string list" where
  "reCacheSize_FindStringSubmatch s =
     (let ds = takeWhile is_digit s; rest = dropWhile is_digit s
      in if ds \<noteq> [] \<and> rest = '' KB'' then [s, ds] else [])"

text \<open>Conversion of a Go \<open>int\<close> into \<open>uint\<close>, both 64 bits wide.\<close>

definition uint_of_int :: "int \<Rightarrow> nat" where
  "uint_of_int x = nat (x mod 2 ^ 64)"

section \<open>Topology reader\<close>

datatype panic = IndexOutOfRange nat nat

text \<open>\<open>sl[i]\<close>: a Go slice index panics outside the slice.\<close>

definition index :: "string list \<Rightarrow> nat \<Rightarrow> panic + string" where
  "index sl i = (if i < length sl then Inr (sl ! i) else Inl (IndexOutOfRange i (length sl)))"

text \<open>
  The state of the scanning loop: the CPU facts of the receiver and the local variables.
  The two maps only ever store \<open>true\<close>, so each is the set of its keys and \<open>len\<close> is
  the number of elements. The counters are Go \<open>int\<close>s, which a file has to hold some
  \<open>2 ^ 56\<close> lines to overflow; they are unbounded here.
\<close>

record scan_state =
  CPU_st :: CPU
  cpu :: "string set"
  core :: "string set"
  cpuCount :: int
  coreCount :: int
  cpuID :: string

text \<open>
  The body of the scanning loop for one line. \<open>parseSpeed\<close> stands for
  \<open>strconv.ParseFloat(_, 32)\<close> followed by the conversion to \<open>uint\<close> (\<open>None\<close> when the
  parse fails); floating point is outside this development.
\<close>

definition processLine ::
  "(string \<Rightarrow> nat option) \<Rightarrow> string \<Rightarrow> scan_state \<Rightarrow> panic + scan_state" where
  "processLine parseSpeed text st =
     (let sl = reTwoColumns_Split2 text
      in if sl \<noteq> [] then
           (let key = hd sl in
            if key = ''processor'' then
              (case index sl 1 of
                 Inl p \<Rightarrow> Inl p
               | Inr v \<Rightarrow>
                   Inr (st\<lparr>cpuID := v, cpu := insert v (cpu st), cpuCount := cpuCount st + 1\<rparr>))
            else if key = ''core id'' then
              (case index sl 1 of
                 Inl p \<Rightarrow> Inl p
               | Inr v \<Rightarrow> Inr (st\<lparr>core := insert (cpuID st @ ''/'' @ v) (core st)\<rparr>))
            else if key = ''cpu cores'' then
              (case index sl 1 of
                 Inl p \<Rightarrow> Inl p
               | Inr v \<Rightarrow>
                   (case strconv_ParseInt v 8 of
                      Some c \<Rightarrow> Inr (st\<lparr>coreCount := coreCount st + c + 1\<rparr>)
                    | None \<Rightarrow> Inr (st\<lparr>coreCount := coreCount st + 1\<rparr>)))
            else if key = ''vendor_id'' then
              (if Vendor (CPU_st st) = [] then
                 (case index sl 1 of
                    Inl p \<Rightarrow> Inl p
                  | Inr v \<Rightarrow> Inr (st\<lparr>CPU_st := (CPU_st st)\<lparr>Vendor := v\<rparr>\<rparr>))
               else Inr st)
            else if key = ''flags'' then
              (if Flags (CPU_st st) = [] then
                 (case index sl 1 of
                    Inl p \<Rightarrow> Inl p
                  | Inr v \<Rightarrow> Inr (st\<lparr>CPU_st := (CPU_st st)\<lparr>Flags := v\<rparr>\<rparr>))
               else Inr st)
            else if key = ''model name'' then
              (if Model (CPU_st st) = [] then
                 (case index sl 1 of
                    Inl p \<Rightarrow> Inl p
                  | Inr v \<Rightarrow>
                      (let model = reExtraSpace_ReplaceAll v
                       in Inr (st\<lparr>CPU_st := (CPU_st st)
                                 \<lparr>Model := strings_Replace1 model ''- '' ''-''\<rparr>\<rparr>)))
               else Inr st)
            else if key = ''cpu MHz'' then
              (if Speed_CPU (CPU_st st) = 0 then
                 (case index sl 1 of
                    Inl p \<Rightarrow> Inl p
                  | Inr v \<Rightarrow>
                      (case parseSpeed v of
                         Some i \<Rightarrow> Inr (st\<lparr>CPU_st := (CPU_st st)\<lparr>Speed_CPU := i\<rparr>\<rparr>)
                       | None \<Rightarrow> Inr st))
               else Inr st)
            else if key = ''cache size'' then
              (if Cache (CPU_st st) = 0 then
                 (case index sl 1 of
                    Inl p \<Rightarrow> Inl p
                  | Inr v \<Rightarrow>
                      (let m = reCacheSize_FindStringSubmatch v
                       in if m \<noteq> [] then
                            (case strconv_ParseUint (m ! 1) 64 of
                               Some cache \<Rightarrow> Inr (st\<lparr>CPU_st := (CPU_st st)\<lparr>Cache := cache\<rparr>\<rparr>)
                             | None \<Rightarrow> Inr st)
                          else Inr st))
               else Inr st)
            else Inr st)
         else Inr st)"

text \<open>The loop \<open>for s.Scan()\<close> over the lines the scanner delivers; a panic ends it.\<close>

fun scanLines ::
  "(string \<Rightarrow> nat option) \<Rightarrow> string list \<Rightarrow> scan_state \<Rightarrow> panic + scan_state" where
  "scanLines parseSpeed [] st = Inr st"
| "scanLines parseSpeed (text # rest) st =
     (case processLine parseSpeed text st of
        Inl p \<Rightarrow> Inl p
      | Inr st' \<Rightarrow> scanLines parseSpeed rest st')"

text \<open>
  What \<open>os.Open\<close> and the scanner give: the file does not open, or the scanner delivers
  these lines (\<open>s.Text()\<close> of every successful \<open>s.Scan()\<close>) and then stops, with
  \<open>s.Err()\<close> set (\<open>True\<close>) or at the end of the file.
\<close>

datatype cpuinfo_source = OpenFails | Scanned "string list" bool

text \<open>
  \<open>getCPUInfo\<close>. \<open>numCPU\<close> is \<open>runtime.NumCPU()\<close>, which is positive. The branch for
  a virtualized host assigns the two counters, and the two assignments after it follow
  unconditionally, as in the source.
\<close>

definition getCPUInfo ::
  "(string \<Rightarrow> nat option) \<Rightarrow> nat \<Rightarrow> cpuinfo_source \<Rightarrow> SysInfo \<Rightarrow> panic + SysInfo" where
  "getCPUInfo parseSpeed numCPU f si =
     (let si1 = si\<lparr>CPU_si := (CPU_si si)\<lparr>Threads := numCPU\<rparr>\<rparr>
      in case f of
           OpenFails \<Rightarrow> Inr si1
         | Scanned lines scan_err \<Rightarrow>
             (case scanLines parseSpeed lines
                     \<lparr>CPU_st = CPU_si si1, cpu = {}, core = {}, cpuCount = 0, coreCount = 0,
                      cpuID = []\<rparr> of
                Inl p \<Rightarrow> Inl p
              | Inr st \<Rightarrow>
                  (let si2 = si1\<lparr>CPU_si := CPU_st st\<rparr>
                   in if scan_err then Inr si2
                      else
                        (let si3 =
                               (if Hostname (Node_si si2) = [] \<or> Hypervisor (Node_si si2) \<noteq> []
                                then si2\<lparr>CPU_si := (CPU_si si2)
                                           \<lparr>Cpus := uint_of_int (cpuCount st),
                                            Cores := uint_of_int (coreCount st)\<rparr>\<rparr>
                                else si2)
                         in Inr (si3\<lparr>CPU_si := (CPU_si si3)
                                      \<lparr>Cpus := card (cpu st), Cores := card (core st)\<rparr>\<rparr>)))))"

section \<open>Specification-side definitions\<close>

text \<open>
  What the specification says of the decoding of the legacy bitmask: the labels of the set
  bits among positions 7 to 11, in that order, joined with a separator; and the speed of the
  first test that matches in the list of tests, ordered by priority.
\<close>

fun join_with :: "string \<Rightarrow> string list \<Rightarrow> string" where
  "join_with sep [] = []"
| "join_with sep [x] = x"
| "join_with sep (x # y # ys) = x @ sep @ join_with sep (y # ys)"

definition spec_port_label :: "32 word \<Rightarrow> string" where
  "spec_port_label supp =
     join_with ''/'' (map snd (filter (\<lambda>(i, p). bit supp i) (zip [7..<12] portLabels)))"

definition spec_speed_tests :: "(32 word \<times> nat) list" where
  "spec_speed_tests =
     [(0x78000000, 56000), (0x07800000, 40000), (0x00600000, 20000), (0x001c1000, 10000),
      (0x00008000, 2500), (0x00020030, 1000), (0x0000000c, 100), (0x00000003, 10)]"

definition spec_max_speed :: "32 word \<Rightarrow> nat" where
  "spec_max_speed supp =
     (case find (\<lambda>(m, s). supp AND m \<noteq> 0) spec_speed_tests of
        None \<Rightarrow> 0 | Some (m, s) \<Rightarrow> s)"

text \<open>
  An entry of the device directory whose link text can be read.
\<close>

definition readable :: "dir_entry \<Rightarrow> bool" where
  "readable e = (case os_Readlink (ent_kind e) of Inr _ \<Rightarrow> True | Inl _ \<Rightarrow> False)"

text \<open>
  A record line has a key and a value when \<open>find_reTwoColumns\<close> finds the separator.
  The processor-index values of a stream, in order, and its (processor-index, core-id)
  pairs, where the processor index of a core-id line is the value of the last
  processor-index line before it (\<open>cur\<close> when there is none).
\<close>

fun spec_processor_ids :: "string list \<Rightarrow> string list" where
  "spec_processor_ids [] = []"
| "spec_processor_ids (l # ls) =
     (case find_reTwoColumns l of
        Some (k, v) \<Rightarrow>
          (if k = ''processor'' then v # spec_processor_ids ls else spec_processor_ids ls)
      | None \<Rightarrow> spec_processor_ids ls)"

fun spec_core_pairs :: "string \<Rightarrow> string list \<Rightarrow> (string \<times> string) list" where
  "spec_core_pairs cur [] = []"
| "spec_core_pairs cur (l # ls) =
     (case find_reTwoColumns l of
        Some (k, v) \<Rightarrow>
          (if k = ''processor'' then spec_core_pairs v ls
           else if k = ''core id'' then (cur, v) # spec_core_pairs cur ls
           else spec_core_pairs cur ls)
      | None \<Rightarrow> spec_core_pairs cur ls)"

text \<open>
  The key the scanning loop forms for such a pair, \<open>fmt.Sprintf("%s/%s", cpuID, sl[1])\<close>.
\<close>

definition core_key :: "string \<times> string \<Rightarrow> string" where
  "core_key pc = fst pc @ ''/'' @ snd pc"

text \<open>
  The host counts as not virtualized when the hostname is known and no hypervisor was
  detected: the negation of the test of \<open>getCPUInfo\<close>.
\<close>

definition non_virtualized :: "SysInfo \<Rightarrow> bool" where
  "non_virtualized si = (\<not> (Hostname (Node_si si) = [] \<or> Hypervisor (Node_si si) \<noteq> []))"

definition lines_of :: "cpuinfo_source \<Rightarrow> string list" where
  "lines_of src = (case src of OpenFails \<Rightarrow> [] | Scanned ls e \<Rightarrow> ls)"

text \<open>
  Every run of consecutive spaces collapsed to a single space: a space that is followed by
  a space is dropped.
\<close>

fun spec_collapse_spaces :: "string \<Rightarrow> string" where
  "spec_collapse_spaces (c # d # cs) =
     (if c = CHR '' '' \<and> d = CHR '' '' then spec_collapse_spaces (d # cs)
      else c # spec_collapse_spaces (d # cs))"
| "spec_collapse_spaces cs = cs"

text \<open>
  A model string \<open>m\<close> is the normal form of a value \<open>v\<close>: the collapsed value with its
  first occurrence of \<open>"- "\<close> replaced by \<open>"-"\<close>, or the collapsed value itself when
  it has no occurrence.
\<close>

definition spec_normalised :: "string \<Rightarrow> string \<Rightarrow> bool" where
  "spec_normalised v m =
     (let c = spec_collapse_spaces v
      in if sublist ''- '' c
         then \<exists>a b. c = a @ ''- '' @ b \<and> \<not> sublist ''- '' (a @ ''-'') \<and> m = a @ ''-'' @ b
         else m = c)"

text \<open>
  The form \<open><digits> KB\<close>: at least one decimal digit, then a space and \<open>KB\<close>, and
  nothing else.
\<close>

definition kb_form :: "string \<Rightarrow> bool" where
  "kb_form v =
     (3 < length v \<and> list_all is_digit (take (length v - 3) v) \<and>
      drop (length v - 3) v = '' KB'')"

section \<open>Example inputs\<close>

text \<open>
  A record line \<open>key<TAB>: value\<close>, zero-valued facts, a fresh \<open>SysInfo\<close> after the
  node information is known, and the local variables at the entry of the scanning loop.
\<close>

definition record_line :: "string \<Rightarrow> string \<Rightarrow> string" where
  "record_line k v = k @ [CHR 0x09] @ '': '' @ v"

definition zero_CPU :: CPU where
  "zero_CPU = \<lparr>Vendor = [], Model = [], Speed_CPU = 0, Cache = 0, Cpus = 0, Cores = 0,
               Threads = 0, Flags = []\<rparr>"

definition fresh_SysInfo :: "string \<Rightarrow> string \<Rightarrow> SysInfo" where
  "fresh_SysInfo hostname hypervisor =
     \<lparr>Node_si = \<lparr>Hostname = hostname, Hypervisor = hypervisor\<rparr>, CPU_si = zero_CPU,
      Network = []\<rparr>"

definition init_scan :: "CPU \<Rightarrow> scan_state" where
  "init_scan c = \<lparr>CPU_st = c, cpu = {}, core = {}, cpuCount = 0, coreCount = 0, cpuID = []\<rparr>"

text \<open>
  A host on which the first request of the modern query ends with the given error number
  (0 is success, with a negative word count), and the legacy query reports the mask
  \<open>0x2ef\<close>; a host whose modern query succeeds with a positive word count; entries of
  the device directory: a link whose target exists, a link whose target is missing and a
  regular file.
\<close>

definition example_host :: "errno \<Rightarrow> dev_host" where
  "example_host e =
     \<lparr>glink_socket = Inr 3,
      glink_ioctl1 = (\<lambda>n s. (e, s\<lparr>LinkModeMasksNwords := - 3\<rparr>)),
      glink_ioctl2 = (\<lambda>n s. (0, s\<lparr>Speed_ls := 1000, Port_ls := 0\<rparr>)),
      gset_socket = Inr 3,
      gset_ioctl = (\<lambda>n s. (0, s\<lparr>Supported_gset := 0x2ef\<rparr>)),
      byName = Some [''192.0.2.1/24''],
      address_file = ''02:00:00:00:00:01'',
      driver_link = Inr ''../../../bus/virtio/drivers/virtio_net''\<rparr>"

definition unnegotiated_host :: dev_host where
  "unnegotiated_host =
     \<lparr>glink_socket = Inr 3,
      glink_ioctl1 = (\<lambda>n s. (0, s\<lparr>LinkModeMasksNwords := 3, Speed_ls := 40000, Port_ls := 3\<rparr>)),
      glink_ioctl2 = (\<lambda>n s. (0, s)),
      gset_socket = Inr 3,
      gset_ioctl = (\<lambda>n s. (0, s\<lparr>Supported_gset := 0x2ef\<rparr>)),
      byName = None,
      address_file = ''02:00:00:00:00:02'',
      driver_link = Inl 2\<rparr>"

definition unnegotiated_entry :: dir_entry where
  "unnegotiated_entry =
     \<lparr>ent_name = ''eth1'', ent_kind = Symlink ''../../devices/pci0000:00/net/eth1'' True,
      ent_host = unnegotiated_host\<rparr>"

definition entry_eth0 :: dir_entry where
  "entry_eth0 =
     \<lparr>ent_name = ''eth0'', ent_kind = Symlink ''../../devices/virtual/net/eth0'' True,
      ent_host = example_host 0\<rparr>"

definition entry_dangling :: dir_entry where
  "entry_dangling =
     \<lparr>ent_name = ''ghost0'', ent_kind = Symlink ''../../devices/virtual/net/ghost0'' False,
      ent_host = unnegotiated_host\<lparr>glink_socket := Inl 24, gset_socket := Inl 24,
        address_file := []\<rparr>\<rparr>"

definition entry_file :: dir_entry where
  "entry_file =
     \<lparr>ent_name = ''bonding_masters'', ent_kind = NotALink, ent_host = unnegotiated_host\<rparr>"

text \<open>
  Record streams: a model-name line; two processor blocks with the same core id; two
  blocks whose values contain the separator of the core key.
\<close>

definition model_line :: string where
  "model_line = record_line ''model name'' ''Intel(R)  Xeon(R)   CPU E5- 2680 - v3''"

definition two_block_lines :: "string list" where
  "two_block_lines =
     [record_line ''processor'' ''0'', record_line ''core id'' ''0'',
      record_line ''cpu cores'' ''1'', [],
      record_line ''processor'' ''1'', record_line ''core id'' ''0'',
      record_line ''processor'' ''1'']"

definition slash_lines :: "string list" where
  "slash_lines =
     [record_line ''processor'' ''a/b'', record_line ''core id'' ''c'',
      record_line ''processor'' ''a'', record_line ''core id'' ''b/c'']"

section \<open>Decoding of the legacy bitmask\<close>

lemma test_bit_iff: "n < 32 \<Longrightarrow> ((w :: 32 word) AND push_bit n 1 > 0) = bit w n"
  by (simp add: word_gt_0 and_exp_eq_0_iff_not_bit push_bit_of_1)

lemma test_bits_7_11:
  "((w :: 32 word) AND 128 > 0) = bit w 7"
  "((w :: 32 word) AND 256 > 0) = bit w 8"
  "((w :: 32 word) AND 512 > 0) = bit w 9"
  "((w :: 32 word) AND 1024 > 0) = bit w 10"
  "((w :: 32 word) AND 2048 > 0) = bit w 11"
  using test_bit_iff [of 7 w] test_bit_iff [of 8 w] test_bit_iff [of 9 w]
    test_bit_iff [of 10 w] test_bit_iff [of 11 w]
  by simp_all

lemma upt_7_12: "[7..<12] = [7, 8, 9, 10, 11]"
  by (simp add: upt_rec)

lemma getPortType_spec: "getPortType supp = spec_port_label supp"
  unfolding getPortType_def spec_port_label_def portLabels_def strings_TrimRight_def upt_7_12
  by (simp add: test_bits_7_11)

lemma getPortType_tp_mii:
  "bit supp 7 \<Longrightarrow> \<not> bit supp 8 \<Longrightarrow> bit supp 9 \<Longrightarrow> \<not> bit supp 10 \<Longrightarrow> \<not> bit supp 11 \<Longrightarrow>
   getPortType supp = ''tp/mii''"
  unfolding getPortType_def portLabels_def strings_TrimRight_def
  by (simp add: test_bits_7_11)

lemma getMaxSpeed_spec: "getMaxSpeed supp = spec_max_speed supp"
  unfolding getMaxSpeed_def spec_max_speed_def spec_speed_tests_def
  by (simp add: word_gt_0)

text \<open>
  Claim C8. For every 32-bit legacy bitmask the port label is the list of the labels
  \<open>tp\<close>, \<open>aui\<close>, \<open>mii\<close>, \<open>fibre\<close>, \<open>bnc\<close> of the set bits among positions 7 to 11,
  in that order, joined with \<open>/\<close> and without a trailing separator, so that bits 7 and 9
  (and none of 8, 10, 11) give \<open>tp/mii\<close>; the maximal speed is the speed of the first test
  that matches among 56000, 40000, 20000, 10000, 2500, 1000, 100, 10, so that a mask that
  matches the tests of 10000 and of 1000 (and no earlier one) gives 10000 and never less,
  and it is 0 when no test matches.
\<close>

theorem legacy_bitmask_decoding:
  "getPortType supp = spec_port_label supp \<and>
   getMaxSpeed supp = spec_max_speed supp \<and>
   (bit supp 7 \<and> \<not> bit supp 8 \<and> bit supp 9 \<and> \<not> bit supp 10 \<and> \<not> bit supp 11 \<longrightarrow>
      getPortType supp = ''tp/mii'') \<and>
   (supp AND 0x001c1000 \<noteq> 0 \<and> supp AND 0x00020030 \<noteq> 0 \<and>
    supp AND 0x78000000 = 0 \<and> supp AND 0x07800000 = 0 \<and> supp AND 0x00600000 = 0 \<longrightarrow>
      getMaxSpeed supp = 10000) \<and>
   (supp AND 0x001c1000 \<noteq> 0 \<longrightarrow> 10000 \<le> getMaxSpeed supp) \<and>
   ((\<forall>(m, s) \<in> set spec_speed_tests. supp AND m = 0) \<longrightarrow> getMaxSpeed supp = 0)"
proof -
  have "supp AND 0x001c1000 \<noteq> 0 \<and> supp AND 0x00020030 \<noteq> 0 \<and>
    supp AND 0x78000000 = 0 \<and> supp AND 0x07800000 = 0 \<and> supp AND 0x00600000 = 0 \<longrightarrow>
      getMaxSpeed supp = 10000"
    by (simp add: getMaxSpeed_def word_gt_0)
  moreover have "supp AND 0x001c1000 \<noteq> 0 \<longrightarrow> 10000 \<le> getMaxSpeed supp"
    by (simp add: getMaxSpeed_def word_gt_0)
  moreover have "(\<forall>(m, s) \<in> set spec_speed_tests. supp AND m = 0) \<longrightarrow> getMaxSpeed supp = 0"
    by (simp add: getMaxSpeed_def spec_speed_tests_def)
  ultimately show ?thesis
    using getPortType_spec getMaxSpeed_spec getPortType_tp_mii by blast
qed

text \<open>
  The mask \<open>0x21280\<close> has bits 7 and 9 and matches the tests of 10000 and of 1000;
  the mask \<open>0x40\<close> matches no test.
\<close>

theorem legacy_bitmask_decoding_witness:
  "(bit (0x21280 :: 32 word) 7 \<and> \<not> bit (0x21280 :: 32 word) 8 \<and> bit (0x21280 :: 32 word) 9 \<and>
    \<not> bit (0x21280 :: 32 word) 10 \<and> \<not> bit (0x21280 :: 32 word) 11) \<and>
   ((0x21280 :: 32 word) AND 0x001c1000 \<noteq> 0 \<and> (0x21280 :: 32 word) AND 0x00020030 \<noteq> 0 \<and>
    (0x21280 :: 32 word) AND 0x78000000 = 0 \<and> (0x21280 :: 32 word) AND 0x07800000 = 0 \<and>
    (0x21280 :: 32 word) AND 0x00600000 = 0) \<and>
   getPortType 0x21280 = ''tp/mii'' \<and> getMaxSpeed 0x21280 = 10000 \<and>
   list_all (\<lambda>(m, s). (0x40 :: 32 word) AND m = 0) spec_speed_tests \<and> getMaxSpeed 0x40 = 0"
proof -
  have b: "bit (0x21280 :: 32 word) 7 \<and> \<not> bit (0x21280 :: 32 word) 8 \<and>
      bit (0x21280 :: 32 word) 9 \<and> \<not> bit (0x21280 :: 32 word) 10 \<and> \<not> bit (0x21280 :: 32 word) 11"
    by simp
  have m: "(0x21280 :: 32 word) AND 0x001c1000 \<noteq> 0 \<and> (0x21280 :: 32 word) AND 0x00020030 \<noteq> 0 \<and>
    (0x21280 :: 32 word) AND 0x78000000 = 0 \<and> (0x21280 :: 32 word) AND 0x07800000 = 0 \<and>
    (0x21280 :: 32 word) AND 0x00600000 = 0"
    by simp
  have z: "\<forall>(m, s) \<in> set spec_speed_tests. (0x40 :: 32 word) AND m = 0"
    by (simp add: spec_speed_tests_def)
  have z': "list_all (\<lambda>(m, s). (0x40 :: 32 word) AND m = 0) spec_speed_tests"
    by (simp add: spec_speed_tests_def)
  show ?thesis
    using b m z z' legacy_bitmask_decoding [of "0x21280"] legacy_bitmask_decoding [of "0x40"]
    by blast
qed

section \<open>Device enumeration\<close>

lemma deviceFact_legacy:
  assumes "os_Readlink (ent_kind link) = Inr t"
    and "getSupportedWithEthtoolGLinkSetting (ent_host link) (ent_name link) = Inl e"
  shows "\<exists>d. deviceFact link = Some d \<and>
           Port d = getPortType (getSupported (ent_host link) (ent_name link)) \<and>
           Speed d = getMaxSpeed (getSupported (ent_host link) (ent_name link)) \<and>
           IpAddresses d = []"
  using assms by (simp add: deviceFact_def Let_def split: sum.splits)

lemma glink_rejects:
  assumes "glink_socket h = Inr fd"
    and "glink_ioctl1 h (ifr_Name name) (zero_ethtoolLinkSetting\<lparr>Cmd_ls := 0x0000004c\<rparr>) = (0, s1)"
    and "0 \<le> sint (LinkModeMasksNwords s1) \<or> Cmd_ls s1 \<noteq> 0x0000004c"
  shows "getSupportedWithEthtoolGLinkSetting h name = Inl (NwordsCheck (LinkModeMasksNwords s1))"
  using assms by (simp add: getSupportedWithEthtoolGLinkSetting_def)

lemma deviceFact_Some:
  assumes "os_Readlink (ent_kind link) = Inr t"
  shows "\<exists>d. deviceFact link = Some d \<and> Name d = ent_name link"
  using assms
  by (cases "getSupportedWithEthtoolGLinkSetting (ent_host link) (ent_name link)";
      cases "driver_link (ent_host link)")
    (simp_all add: deviceFact_def Let_def)

lemma getNetworkInfo_loop_names:
  "map Name (getNetworkInfo_loop ds acc) =
     map Name acc @ map ent_name (filter (\<lambda>e. \<exists>t. os_Readlink (ent_kind e) = Inr t) ds)"
proof (induction ds arbitrary: acc)
  case Nil
  show ?case by simp
next
  case (Cons e ds)
  show ?case
  proof (cases "os_Readlink (ent_kind e)")
    case (Inl err)
    then have "deviceFact e = None" by (simp add: deviceFact_def)
    with Inl Cons.IH show ?thesis by simp
  next
    case (Inr t)
    then obtain d where d: "deviceFact e = Some d" "Name d = ent_name e"
      using deviceFact_Some by blast
    with Inr Cons.IH [of "acc @ [d]"] show ?thesis by simp
  qed
qed

text \<open>
  Claim C2. The claim: the IP-address list of a device is what the interface-address
  lookup by name gives, and does not depend on the modern or the legacy query. The code
  tests the error of the modern query, not of the lookup: on one and the same device,
  with the same lookup result, the list is empty when the modern query fails (error
  number 95) and holds the address when it succeeds.
\<close>

theorem addresses_follow_modern_query:
  "deviceFact \<lparr>ent_name = ''eth0'', ent_kind = Symlink ''../../devices/virtual/net/eth0'' True,
      ent_host = example_host 95\<rparr> =
     Some \<lparr>Name = ''eth0'', Driver = ''virtio_net'', IpAddresses = [],
            MACAddress = ''02:00:00:00:00:01'', Port = ''tp/mii'', Speed = 1000\<rparr> \<and>
   deviceFact \<lparr>ent_name = ''eth0'', ent_kind = Symlink ''../../devices/virtual/net/eth0'' True,
      ent_host = example_host 0\<rparr> =
     Some \<lparr>Name = ''eth0'', Driver = ''virtio_net'', IpAddresses = [''192.0.2.1/24''],
            MACAddress = ''02:00:00:00:00:01'', Port = ''twisted pair'', Speed = 1000\<rparr>"
  by (simp add: deviceFact_def example_host_def os_Readlink_def
      getSupportedWithEthtoolGLinkSetting_def getSupported_def getPortType_def portLabels_def
      strings_TrimRight_def getMaxSpeed_def getPortTypeForGLinkSetting_def Interface_Addrs_def
      path_Base_def zero_ethtoolLinkSetting_def zero_ethtool_cmd_def)

text \<open>
  Claim C5. When the kernel reports success for the first request of the modern query
  but the word count it returns is not negative, or the command code it echoes is not
  \<open>0x4c\<close>, the modern query returns an error, and the port type and the speed of the
  device come from the mask of the legacy query.
\<close>

theorem unnegotiated_response_falls_back:
  assumes "os_Readlink (ent_kind link) = Inr t"
    and "glink_socket (ent_host link) = Inr fd"
    and "glink_ioctl1 (ent_host link) (ifr_Name (ent_name link))
           (zero_ethtoolLinkSetting\<lparr>Cmd_ls := 0x0000004c\<rparr>) = (0, s1)"
    and "0 \<le> sint (LinkModeMasksNwords s1) \<or> Cmd_ls s1 \<noteq> 0x0000004c"
  shows "getSupportedWithEthtoolGLinkSetting (ent_host link) (ent_name link) =
           Inl (NwordsCheck (LinkModeMasksNwords s1)) \<and>
         (\<exists>d. deviceFact link = Some d \<and>
           Port d = getPortType (getSupported (ent_host link) (ent_name link)) \<and>
           Speed d = getMaxSpeed (getSupported (ent_host link) (ent_name link)))"
proof -
  have r: "getSupportedWithEthtoolGLinkSetting (ent_host link) (ent_name link) =
      Inl (NwordsCheck (LinkModeMasksNwords s1))"
    using assms(2-4) by (rule glink_rejects)
  from deviceFact_legacy [OF assms(1) r] r show ?thesis by blast
qed

text \<open>
  A device whose kernel answers the modern query with word count 3, speed 40000 and port
  3: the fact has the port type and the speed of the legacy mask \<open>0x2ef\<close>.
\<close>

theorem unnegotiated_response_falls_back_witness:
  "getSupportedWithEthtoolGLinkSetting unnegotiated_host ''eth1'' = Inl (NwordsCheck 3) \<and>
   deviceFact unnegotiated_entry =
     Some \<lparr>Name = ''eth1'', Driver = [], IpAddresses = [],
            MACAddress = ''02:00:00:00:00:02'', Port = ''tp/mii'', Speed = 1000\<rparr>"
proof -
  let ?s1 = "zero_ethtoolLinkSetting\<lparr>Cmd_ls := 0x0000004c, LinkModeMasksNwords := 3,
               Speed_ls := 40000, Port_ls := 3\<rparr>"
  have a: "os_Readlink (ent_kind unnegotiated_entry) = Inr ''../../devices/pci0000:00/net/eth1''"
    by (simp add: unnegotiated_entry_def os_Readlink_def)
  have b: "glink_socket (ent_host unnegotiated_entry) = Inr 3"
    by (simp add: unnegotiated_entry_def unnegotiated_host_def)
  have c: "glink_ioctl1 (ent_host unnegotiated_entry) (ifr_Name (ent_name unnegotiated_entry))
           (zero_ethtoolLinkSetting\<lparr>Cmd_ls := 0x0000004c\<rparr>) = (0, ?s1)"
    by (simp add: unnegotiated_entry_def unnegotiated_host_def)
  have d: "0 \<le> sint (LinkModeMasksNwords ?s1) \<or> Cmd_ls ?s1 \<noteq> 0x0000004c"
    by simp
  have supp: "getSupported unnegotiated_host ''eth1'' = 0x2ef"
    by (simp add: getSupported_def unnegotiated_host_def)
  have p: "getPortType 0x2ef = ''tp/mii''"
    by (simp add: getPortType_def portLabels_def strings_TrimRight_def)
  have m: "getMaxSpeed 0x2ef = 1000"
    by (simp add: getMaxSpeed_def)
  from unnegotiated_response_falls_back [OF a b c d]
  obtain dv where r: "getSupportedWithEthtoolGLinkSetting unnegotiated_host ''eth1'' =
        Inl (NwordsCheck 3)"
    and dv: "deviceFact unnegotiated_entry = Some dv"
      "Port dv = ''tp/mii''" "Speed dv = 1000"
    by (auto simp: unnegotiated_entry_def supp p m)
  have "deviceFact unnegotiated_entry =
     Some \<lparr>Name = ''eth1'', Driver = [], IpAddresses = [],
            MACAddress = ''02:00:00:00:00:02'', Port = Port dv, Speed = Speed dv\<rparr>"
    using dv(1) r
    by (auto simp: deviceFact_def unnegotiated_entry_def os_Readlink_def Let_def
        unnegotiated_host_def split: sum.splits prod.splits)
  with r dv show ?thesis by simp
qed

text \<open>
  Claim C4, as amended. A device directory with exactly one entry whose link text can be
  read and one entry whose link text cannot be read (\<open>os.Readlink\<close> fails: the entry is
  not a symbolic link) gives exactly one fact, the one of the readable entry, in either
  order of the two entries.
\<close>

theorem unreadable_entry_skipped:
  assumes "readable a" and "\<not> readable b"
  shows "(\<exists>d. Network (getNetworkInfo (Inr [a, b]) si) = [d] \<and> Name d = ent_name a) \<and>
         (\<exists>d. Network (getNetworkInfo (Inr [b, a]) si) = [d] \<and> Name d = ent_name a)"
proof -
  from assms have ra: "\<exists>t. os_Readlink (ent_kind a) = Inr t"
    and rb: "\<not> (\<exists>t. os_Readlink (ent_kind b) = Inr t)"
    by (auto simp: readable_def split: sum.splits)
  have n1: "map Name (getNetworkInfo_loop [a, b] []) = [ent_name a]"
    using ra rb by (simp only: getNetworkInfo_loop_names) simp
  have n2: "map Name (getNetworkInfo_loop [b, a] []) = [ent_name a]"
    using ra rb by (simp only: getNetworkInfo_loop_names) simp
  from n1 n2 show ?thesis
    by (auto simp: getNetworkInfo_def map_eq_Cons_conv)
qed

text \<open>
  Claim C4, as stated, fails: \<open>os.Readlink\<close> reads the text of a link whose target is
  missing, so the directory with one resolvable and one dangling link gives two facts.
\<close>

theorem dangling_symlink_emitted:
  "resolvable entry_eth0 \<and> dangling entry_dangling \<and>
   map Name (Network (getNetworkInfo (Inr [entry_eth0, entry_dangling]) (fresh_SysInfo ''h'' []))) =
     [''eth0'', ''ghost0'']"
  by (simp add: getNetworkInfo_def getNetworkInfo_loop_names resolvable_def dangling_def
      entry_eth0_def entry_dangling_def os_Readlink_def fresh_SysInfo_def
      del: getNetworkInfo_loop.simps)

text \<open>
  A directory with a link and a regular file gives the fact of the link only.
\<close>

theorem unreadable_entry_skipped_witness:
  "readable entry_eth0 \<and> \<not> readable entry_file \<and>
   map Name (Network (getNetworkInfo (Inr [entry_eth0, entry_file]) (fresh_SysInfo ''h'' []))) =
     [''eth0'']"
proof -
  have a: "readable entry_eth0" by (simp add: readable_def entry_eth0_def os_Readlink_def)
  have b: "\<not> readable entry_file" by (simp add: readable_def entry_file_def os_Readlink_def)
  from unreadable_entry_skipped [OF a b, of "fresh_SysInfo ''h'' []"]
  obtain d where "Network (getNetworkInfo (Inr [entry_eth0, entry_file]) (fresh_SysInfo ''h'' [])) = [d]"
    "Name d = ent_name entry_eth0" by blast
  with a b show ?thesis by (simp add: entry_eth0_def)
qed

section \<open>The scanning loop\<close>

lemma Split2_find:
  "reTwoColumns_Split2 l = (case find_reTwoColumns l of None \<Rightarrow> [l] | Some (k, v) \<Rightarrow> [k, v])"
  by (cases l) (simp_all add: reTwoColumns_Split2_def split: option.splits)

lemma Split2_record_line_processor:
  "reTwoColumns_Split2 (record_line ''processor'' v) = [''processor'', v]"
  by (simp add: reTwoColumns_Split2_def record_line_def match_reTwoColumns_def)

lemma Split2_record_line_cpu_cores:
  "reTwoColumns_Split2 (record_line ''cpu cores'' v) = [''cpu cores'', v]"
  by (simp add: reTwoColumns_Split2_def record_line_def match_reTwoColumns_def)

lemma processLine_counts:
  assumes "processLine p l st = Inr st'"
  shows "(case find_reTwoColumns l of
            Some (k, v) \<Rightarrow>
              (if k = ''processor''
               then cpu st' = insert v (cpu st) \<and> core st' = core st \<and> cpuID st' = v
               else if k = ''core id''
               then cpu st' = cpu st \<and> core st' = insert (cpuID st @ ''/'' @ v) (core st) \<and>
                    cpuID st' = cpuID st
               else cpu st' = cpu st \<and> core st' = core st \<and> cpuID st' = cpuID st)
          | None \<Rightarrow> cpu st' = cpu st \<and> core st' = core st \<and> cpuID st' = cpuID st)"
proof (cases "find_reTwoColumns l")
  case None
  with assms show ?thesis
    by (auto simp: processLine_def Split2_find index_def Let_def split: if_splits)
next
  case (Some kv)
  obtain k v where kv: "kv = (k, v)" by (cases kv)
  with Some assms show ?thesis
    by (auto simp: processLine_def Split2_find index_def Let_def
        split: if_splits option.splits)
qed

lemma processLine_frame:
  assumes "processLine p l st = Inr st'"
  shows "Threads (CPU_st st') = Threads (CPU_st st) \<and> Cpus (CPU_st st') = Cpus (CPU_st st) \<and>
         Cores (CPU_st st') = Cores (CPU_st st)"
proof (cases "find_reTwoColumns l")
  case None
  with assms show ?thesis
    by (auto simp: processLine_def Split2_find index_def Let_def split: if_splits)
next
  case (Some kv)
  obtain k v where kv: "kv = (k, v)" by (cases kv)
  with Some assms show ?thesis
    by (auto simp: processLine_def Split2_find index_def Let_def
        split: if_splits option.splits)
qed

lemma scanLines_counts:
  "scanLines p ls st = Inr st' \<Longrightarrow>
     cpu st' = cpu st \<union> set (spec_processor_ids ls) \<and>
     core st' = core st \<union> core_key ` set (spec_core_pairs (cpuID st) ls)"
proof (induction ls arbitrary: st)
  case Nil
  then show ?case by simp
next
  case (Cons l ls)
  from Cons.prems obtain st1 where s1: "processLine p l st = Inr st1"
    and s2: "scanLines p ls st1 = Inr st'"
    by (auto split: sum.splits)
  note ih = Cons.IH [OF s2]
  note pl = processLine_counts [OF s1]
  show ?case
  proof (cases "find_reTwoColumns l")
    case None
    with pl ih show ?thesis by simp
  next
    case (Some kv)
    obtain k v where kv: "kv = (k, v)" by (cases kv)
    with Some pl ih show ?thesis
      by (auto simp: core_key_def split: if_splits)
  qed
qed

lemma scanLines_frame:
  "scanLines p ls st = Inr st' \<Longrightarrow>
     Threads (CPU_st st') = Threads (CPU_st st) \<and> Cpus (CPU_st st') = Cpus (CPU_st st) \<and>
     Cores (CPU_st st') = Cores (CPU_st st)"
proof (induction ls arbitrary: st)
  case Nil
  then show ?case by simp
next
  case (Cons l ls)
  from Cons.prems obtain st1 where s1: "processLine p l st = Inr st1"
    and s2: "scanLines p ls st1 = Inr st'"
    by (auto split: sum.splits)
  from Cons.IH [OF s2] processLine_frame [OF s1] show ?case by simp
qed

lemma getCPUInfo_read:
  assumes "getCPUInfo p n (Scanned ls False) si = Inr si'"
  shows "\<exists>st. scanLines p ls (init_scan ((CPU_si si)\<lparr>Threads := n\<rparr>)) = Inr st \<and>
           Cpus (CPU_si si') = card (cpu st) \<and> Cores (CPU_si si') = card (core st) \<and>
           Threads (CPU_si si') = Threads (CPU_st st)"
  using assms
  by (auto simp: getCPUInfo_def init_scan_def Let_def split: sum.splits if_splits)

lemma getCPUInfo_unread:
  assumes "getCPUInfo p n (Scanned ls True) si = Inr si'"
  shows "\<exists>st. scanLines p ls (init_scan ((CPU_si si)\<lparr>Threads := n\<rparr>)) = Inr st \<and>
           CPU_si si' = CPU_st st"
  using assms
  by (auto simp: getCPUInfo_def init_scan_def Let_def split: sum.splits if_splits)

lemma core_pairs_fst:
  "(q, c) \<in> set (spec_core_pairs cur ls) \<Longrightarrow> q = cur \<or> q \<in> set (spec_processor_ids ls)"
proof (induction ls arbitrary: cur)
  case Nil
  then show ?case by simp
next
  case (Cons l ls)
  show ?case
  proof (cases "find_reTwoColumns l")
    case None
    with Cons.prems Cons.IH [of cur] show ?thesis by simp
  next
    case (Some kv)
    obtain k v where kv: "kv = (k, v)" by (cases kv)
    show ?thesis
    proof (cases "k = ''processor''")
      case True
      with Some kv Cons.prems have "(q, c) \<in> set (spec_core_pairs v ls)" by simp
      from Cons.IH [OF this] Some kv True show ?thesis by auto
    next
      case False
      with Some kv Cons.prems have "(q, c) = (cur, v) \<or> (q, c) \<in> set (spec_core_pairs cur ls)"
        by (simp split: if_splits)
      with Cons.IH [of cur] Some kv False show ?thesis by auto
    qed
  qed
qed

lemma first_separator_unique:
  assumes "x \<notin> set xs" and "x \<notin> set xs'" and "xs @ x # ys = xs' @ x # ys'"
  shows "xs = xs' \<and> ys = ys'"
proof -
  have tw: "x \<notin> set zs \<Longrightarrow> takeWhile (\<lambda>c. c \<noteq> x) (zs @ x # ws) = zs" for zs ws
    by (induction zs) auto
  have "takeWhile (\<lambda>c. c \<noteq> x) (xs @ x # ys) = xs"
    using assms(1) by (rule tw)
  moreover have "takeWhile (\<lambda>c. c \<noteq> x) (xs' @ x # ys') = xs'"
    using assms(2) by (rule tw)
  ultimately have "xs = xs'" using assms(3) by simp
  with assms(3) show ?thesis by simp
qed

lemma core_key_inj:
  assumes "CHR ''/'' \<notin> set (fst a)" and "CHR ''/'' \<notin> set (fst b)"
    and "core_key a = core_key b"
  shows "a = b"
proof -
  from assms(3) have "fst a @ CHR ''/'' # snd a = fst b @ CHR ''/'' # snd b"
    by (simp add: core_key_def)
  with assms(1,2) have "fst a = fst b \<and> snd a = snd b"
    by (rule first_separator_unique)
  then show ?thesis by (simp add: prod_eq_iff)
qed

lemma core_key_same_core: "core_key (q1, c) = core_key (q2, c) \<Longrightarrow> q1 = q2"
  by (simp add: core_key_def)

lemma card_ge_2: "finite S \<Longrightarrow> x \<in> S \<Longrightarrow> y \<in> S \<Longrightarrow> x \<noteq> y \<Longrightarrow> 2 \<le> card S"
proof -
  assume f: "finite S" and x: "x \<in> S" and y: "y \<in> S" and n: "x \<noteq> y"
  have "card {x, y} \<le> card S" using f x y by (intro card_mono) auto
  with n show ?thesis by simp
qed

lemma find_two_block:
  "map find_reTwoColumns two_block_lines =
     [Some (''processor'', ''0''), Some (''core id'', ''0''), Some (''cpu cores'', ''1''), None,
      Some (''processor'', ''1''), Some (''core id'', ''0''), Some (''processor'', ''1'')]"
  by (simp add: two_block_lines_def record_line_def match_reTwoColumns_def)

lemma find_slash:
  "map find_reTwoColumns slash_lines =
     [Some (''processor'', ''a/b''), Some (''core id'', ''c''),
      Some (''processor'', ''a''), Some (''core id'', ''b/c'')]"
  by (simp add: slash_lines_def record_line_def match_reTwoColumns_def)

lemma getCPUInfo_two_block:
  "getCPUInfo (\<lambda>_. None) n (Scanned two_block_lines False) (fresh_SysInfo ''host'' []) =
     Inr \<lparr>Node_si = \<lparr>Hostname = ''host'', Hypervisor = []\<rparr>,
          CPU_si = zero_CPU\<lparr>Threads := n, Cpus := 2, Cores := 2\<rparr>, Network = []\<rparr>"
  using find_two_block
  by (simp add: getCPUInfo_def two_block_lines_def processLine_def Split2_find index_def
      fresh_SysInfo_def zero_CPU_def strconv_ParseInt_def is_digit_def decimal_def)

text \<open>
  Claim C3. The claim: neither entry point panics or fails, whatever the input. A line
  that is exactly a key, with no separator after it, is split into one piece, the test
  \<open>sl != nil\<close> lets it pass, and \<open>sl[1]\<close> panics.
\<close>

theorem panic_on_key_without_value:
  "getCPUInfo parseSpeed numCPU (Scanned [''processor''] False) si = Inl (IndexOutOfRange 1 1)"
  by (simp add: getCPUInfo_def processLine_def reTwoColumns_Split2_def match_reTwoColumns_def
      index_def)

text \<open>
  Claim C1. The claim: on a virtualized host the package count is the tally of
  processor-index lines and the core count is the fallback counter. On a host with a
  hypervisor and a stream of two equal processor-index lines and a \<open>cpu cores\<close> line of
  value 4, the loop ends with the tallies 2 and 5, and the facts returned are the sizes of
  the sets, 1 and 0: the assignments after the branch overwrite those of the branch.
\<close>

theorem virtualized_counts_overwritten:
  "scanLines parseSpeed
     [record_line ''processor'' ''0'', record_line ''processor'' ''0'',
      record_line ''cpu cores'' ''4'']
     (init_scan (zero_CPU\<lparr>Threads := 8\<rparr>)) =
     Inr \<lparr>CPU_st = zero_CPU\<lparr>Threads := 8\<rparr>, cpu = {''0''}, core = {}, cpuCount = 2,
          coreCount = 5, cpuID = ''0''\<rparr> \<and>
   getCPUInfo parseSpeed 8
     (Scanned [record_line ''processor'' ''0'', record_line ''processor'' ''0'',
        record_line ''cpu cores'' ''4''] False)
     (fresh_SysInfo ''guest'' ''kvm'') =
     Inr \<lparr>Node_si = \<lparr>Hostname = ''guest'', Hypervisor = ''kvm''\<rparr>,
          CPU_si = zero_CPU\<lparr>Threads := 8, Cpus := 1, Cores := 0\<rparr>, Network = []\<rparr>"
  by (simp add: getCPUInfo_def processLine_def Split2_record_line_processor
      Split2_record_line_cpu_cores index_def init_scan_def zero_CPU_def fresh_SysInfo_def
      strconv_ParseInt_def is_digit_def decimal_def)

text \<open>
  Claim C6, as amended. For every record stream read to its end without a scanner error
  and without a panic on a host that is not virtualized, the package count is the number
  of distinct processor-index values, and the core count is the number of distinct keys
  \<open>processor-index/core-id\<close>; this is the number of distinct (processor-index, core-id)
  pairs when no processor-index value contains \<open>/\<close>, and the same core id under two
  different processor-index values always counts as two cores.
\<close>

theorem distinct_ids_counted:
  assumes "getCPUInfo p n (Scanned ls False) si = Inr si'" and "non_virtualized si"
  shows "Cpus (CPU_si si') = card (set (spec_processor_ids ls)) \<and>
         Cores (CPU_si si') = card (core_key ` set (spec_core_pairs [] ls)) \<and>
         ((\<forall>q \<in> set (spec_processor_ids ls). CHR ''/'' \<notin> set q) \<longrightarrow>
            Cores (CPU_si si') = card (set (spec_core_pairs [] ls))) \<and>
         (\<forall>q1 q2 c. (q1, c) \<in> set (spec_core_pairs [] ls) \<and>
            (q2, c) \<in> set (spec_core_pairs [] ls) \<and> q1 \<noteq> q2 \<longrightarrow> 2 \<le> Cores (CPU_si si'))"
proof -
  let ?P = "set (spec_core_pairs [] ls)"
  from getCPUInfo_read [OF assms(1)] obtain st
    where st: "scanLines p ls (init_scan ((CPU_si si)\<lparr>Threads := n\<rparr>)) = Inr st"
      and c: "Cpus (CPU_si si') = card (cpu st)" "Cores (CPU_si si') = card (core st)"
    by blast
  from scanLines_counts [OF st]
  have sets: "cpu st = set (spec_processor_ids ls)" "core st = core_key ` ?P"
    by (simp_all add: init_scan_def)
  have inj: "(\<forall>q \<in> set (spec_processor_ids ls). CHR ''/'' \<notin> set q) \<longrightarrow>
      card (core_key ` ?P) = card ?P"
  proof
    assume ns: "\<forall>q \<in> set (spec_processor_ids ls). CHR ''/'' \<notin> set q"
    have "inj_on core_key ?P"
    proof (rule inj_onI)
      fix a b assume a: "a \<in> ?P" and b: "b \<in> ?P" and e: "core_key a = core_key b"
      from a have "fst a = [] \<or> fst a \<in> set (spec_processor_ids ls)"
        using core_pairs_fst [of "fst a" "snd a" "[]" ls] by simp
      with ns have na: "CHR ''/'' \<notin> set (fst a)" by auto
      from b have "fst b = [] \<or> fst b \<in> set (spec_processor_ids ls)"
        using core_pairs_fst [of "fst b" "snd b" "[]" ls] by simp
      with ns have nb: "CHR ''/'' \<notin> set (fst b)" by auto
      from na nb e show "a = b" by (rule core_key_inj)
    qed
    then show "card (core_key ` ?P) = card ?P" by (rule card_image)
  qed
  have two: "\<forall>q1 q2 c. (q1, c) \<in> ?P \<and> (q2, c) \<in> ?P \<and> q1 \<noteq> q2 \<longrightarrow>
      2 \<le> card (core_key ` ?P)"
  proof (intro allI impI)
    fix q1 q2 c
    assume h: "(q1, c) \<in> ?P \<and> (q2, c) \<in> ?P \<and> q1 \<noteq> q2"
    then have "core_key (q1, c) \<noteq> core_key (q2, c)"
      using core_key_same_core by blast
    moreover from h have "core_key (q1, c) \<in> core_key ` ?P" "core_key (q2, c) \<in> core_key ` ?P"
      by blast+
    ultimately show "2 \<le> card (core_key ` ?P)"
      using card_ge_2 [of "core_key ` ?P"] by blast
  qed
  from c sets inj two show ?thesis by simp
qed

text \<open>
  Claim C6, as stated, fails: the pairs \<open>(a/b, c)\<close> and \<open>(a, b/c)\<close> are distinct and
  have the same key, so the stream has two distinct pairs and the core count is 1.
\<close>

theorem joined_key_collision:
  "non_virtualized (fresh_SysInfo ''host'' []) \<and>
   getCPUInfo (\<lambda>_. None) 4 (Scanned slash_lines False) (fresh_SysInfo ''host'' []) =
     Inr \<lparr>Node_si = \<lparr>Hostname = ''host'', Hypervisor = []\<rparr>,
          CPU_si = zero_CPU\<lparr>Threads := 4, Cpus := 2, Cores := 1\<rparr>, Network = []\<rparr> \<and>
   spec_core_pairs [] slash_lines = [(''a/b'', ''c''), (''a'', ''b/c'')] \<and>
   card (set (spec_core_pairs [] slash_lines)) = 2"
proof -
  have p: "spec_core_pairs [] slash_lines = [(''a/b'', ''c''), (''a'', ''b/c'')]"
    using find_slash by (simp add: slash_lines_def)
  have g: "getCPUInfo (\<lambda>_. None) 4 (Scanned slash_lines False) (fresh_SysInfo ''host'' []) =
     Inr \<lparr>Node_si = \<lparr>Hostname = ''host'', Hypervisor = []\<rparr>,
          CPU_si = zero_CPU\<lparr>Threads := 4, Cpus := 2, Cores := 1\<rparr>, Network = []\<rparr>"
    using find_slash
    by (simp add: getCPUInfo_def slash_lines_def processLine_def Split2_find index_def
        fresh_SysInfo_def zero_CPU_def)
  have n: "non_virtualized (fresh_SysInfo ''host'' [])"
    by (simp add: non_virtualized_def fresh_SysInfo_def)
  from p g n show ?thesis by simp
qed

text \<open>
  Two processor blocks with core id 0 in both, and the second processor-index line
  repeated: 2 packages and 2 cores.
\<close>

theorem distinct_ids_counted_witness:
  "non_virtualized (fresh_SysInfo ''host'' []) \<and>
   (\<exists>si'. getCPUInfo (\<lambda>_. None) 4 (Scanned two_block_lines False) (fresh_SysInfo ''host'' []) = Inr si' \<and>
      Cpus (CPU_si si') = 2 \<and> Cores (CPU_si si') = 2) \<and>
   spec_processor_ids two_block_lines = [''0'', ''1'', ''1''] \<and>
   spec_core_pairs [] two_block_lines = [(''0'', ''0''), (''1'', ''0'')]"
proof -
  let ?si' = "\<lparr>Node_si = \<lparr>Hostname = ''host'', Hypervisor = []\<rparr>,
          CPU_si = zero_CPU\<lparr>Threads := 4, Cpus := 2, Cores := 2\<rparr>, Network = []\<rparr>"
  have n: "non_virtualized (fresh_SysInfo ''host'' [])"
    by (simp add: non_virtualized_def fresh_SysInfo_def)
  have ids: "spec_processor_ids two_block_lines = [''0'', ''1'', ''1'']"
    using find_two_block by (simp add: two_block_lines_def)
  have prs: "spec_core_pairs [] two_block_lines = [(''0'', ''0''), (''1'', ''0'')]"
    using find_two_block by (simp add: two_block_lines_def)
  have ns: "\<forall>q \<in> set (spec_processor_ids two_block_lines). CHR ''/'' \<notin> set q"
    by (simp add: ids)
  from distinct_ids_counted [OF getCPUInfo_two_block [of 4] n] ns
  have "Cpus (CPU_si ?si') = card (set (spec_processor_ids two_block_lines))"
    and "Cores (CPU_si ?si') = card (set (spec_core_pairs [] two_block_lines))"
    by blast+
  then have "Cpus (CPU_si ?si') = 2" and "Cores (CPU_si ?si') = 2"
    by (simp_all add: ids prs)
  with getCPUInfo_two_block [of 4] n ids prs show ?thesis by blast
qed

text \<open>
  Claim C7, as amended. For every record stream and virtualization flag, with the counts
  zero at the start and no panic, the thread count is the logical CPU count the host
  reports and the package count is at most the number of processor-index lines of the
  stream, so it is at most the thread count when the stream has no more processor-index
  lines than the host reports logical CPUs. On a host that is not virtualized the core
  count is at most the number of core-id lines of the stream, so it is at most the thread
  count when the stream has no more core-id lines than the host reports logical CPUs.
  Nothing is said of the core count of a virtualized host.
\<close>

theorem counts_bounded_by_lines:
  assumes "getCPUInfo p n src si = Inr si'"
    and "Cpus (CPU_si si) = 0" and "Cores (CPU_si si) = 0"
  shows "Threads (CPU_si si') = n \<and>
         Threads (CPU_si si') \<le> n \<and>
         Cpus (CPU_si si') \<le> length (spec_processor_ids (lines_of src)) \<and>
         (length (spec_processor_ids (lines_of src)) \<le> n \<longrightarrow>
            Cpus (CPU_si si') \<le> Threads (CPU_si si')) \<and>
         (non_virtualized si \<longrightarrow>
            Cores (CPU_si si') \<le> length (spec_core_pairs [] (lines_of src))) \<and>
         (non_virtualized si \<and> length (spec_core_pairs [] (lines_of src)) \<le> n \<longrightarrow>
            Cores (CPU_si si') \<le> Threads (CPU_si si'))"
proof -
  have main: "Threads (CPU_si si') = n \<and>
         Cpus (CPU_si si') \<le> length (spec_processor_ids (lines_of src)) \<and>
         Cores (CPU_si si') \<le> length (spec_core_pairs [] (lines_of src))"
  proof (cases src)
    case OpenFails
    with assms show ?thesis by (auto simp: getCPUInfo_def lines_of_def)
  next
    case (Scanned ls e)
    show ?thesis
    proof (cases e)
      case True
      from assms(1) Scanned True have "getCPUInfo p n (Scanned ls True) si = Inr si'"
        by simp
      from getCPUInfo_unread [OF this] obtain st
        where st: "scanLines p ls (init_scan ((CPU_si si)\<lparr>Threads := n\<rparr>)) = Inr st"
          and c: "CPU_si si' = CPU_st st"
        by blast
      from scanLines_frame [OF st] c assms(2,3) show ?thesis
        by (simp add: init_scan_def)
    next
      case False
      from assms(1) Scanned False have "getCPUInfo p n (Scanned ls False) si = Inr si'"
        by simp
      from getCPUInfo_read [OF this] obtain st
        where st: "scanLines p ls (init_scan ((CPU_si si)\<lparr>Threads := n\<rparr>)) = Inr st"
          and c: "Cpus (CPU_si si') = card (cpu st)" "Cores (CPU_si si') = card (core st)"
            "Threads (CPU_si si') = Threads (CPU_st st)"
        by blast
      from scanLines_counts [OF st]
      have sets: "cpu st = set (spec_processor_ids ls)"
        "core st = core_key ` set (spec_core_pairs [] ls)"
        by (simp_all add: init_scan_def)
      have "card (set (spec_processor_ids ls)) \<le> length (spec_processor_ids ls)"
        by (rule card_length)
      moreover have "card (core_key ` set (spec_core_pairs [] ls)) \<le> length (spec_core_pairs [] ls)"
        using card_length [of "map core_key (spec_core_pairs [] ls)"] by simp
      ultimately show ?thesis
        using scanLines_frame [OF st] c sets Scanned
        by (simp add: init_scan_def lines_of_def)
    qed
  qed
  then show ?thesis by simp
qed

text \<open>
  Claim C7, as stated, fails: the stream and the reported CPU count are independent
  inputs. With one logical CPU reported and a stream of two processor blocks the thread
  count is 1 and the package and core counts are 2.
\<close>

theorem packages_exceed_threads:
  "getCPUInfo (\<lambda>_. None) 1 (Scanned two_block_lines False) (fresh_SysInfo ''host'' []) =
     Inr \<lparr>Node_si = \<lparr>Hostname = ''host'', Hypervisor = []\<rparr>,
          CPU_si = zero_CPU\<lparr>Threads := 1, Cpus := 2, Cores := 2\<rparr>, Network = []\<rparr> \<and>
   Threads (zero_CPU\<lparr>Threads := 1, Cpus := 2, Cores := 2\<rparr>) <
     Cpus (zero_CPU\<lparr>Threads := 1, Cpus := 2, Cores := 2\<rparr>) \<and>
   Threads (zero_CPU\<lparr>Threads := 1, Cpus := 2, Cores := 2\<rparr>) <
     Cores (zero_CPU\<lparr>Threads := 1, Cpus := 2, Cores := 2\<rparr>)"
  using getCPUInfo_two_block [of 1] by simp

text \<open>
  The same stream on a host that is not virtualized and reports 4 logical CPUs.
\<close>

theorem counts_bounded_by_lines_witness:
  "Cpus (CPU_si (fresh_SysInfo ''host'' [])) = 0 \<and> Cores (CPU_si (fresh_SysInfo ''host'' [])) = 0 \<and>
   non_virtualized (fresh_SysInfo ''host'' []) \<and>
   length (spec_processor_ids (lines_of (Scanned two_block_lines False))) \<le> 4 \<and>
   length (spec_core_pairs [] (lines_of (Scanned two_block_lines False))) \<le> 4 \<and>
   (\<exists>si'. getCPUInfo (\<lambda>_. None) 4 (Scanned two_block_lines False) (fresh_SysInfo ''host'' []) = Inr si' \<and>
      Threads (CPU_si si') = 4 \<and> Cpus (CPU_si si') \<le> Threads (CPU_si si') \<and>
      Cores (CPU_si si') \<le> Threads (CPU_si si'))"
proof -
  have z: "Cpus (CPU_si (fresh_SysInfo ''host'' [])) = 0"
    "Cores (CPU_si (fresh_SysInfo ''host'' [])) = 0"
    by (simp_all add: fresh_SysInfo_def zero_CPU_def)
  have l1: "length (spec_processor_ids (lines_of (Scanned two_block_lines False))) \<le> 4"
    using find_two_block by (simp add: lines_of_def two_block_lines_def)
  have l2: "length (spec_core_pairs [] (lines_of (Scanned two_block_lines False))) \<le> 4"
    using find_two_block by (simp add: lines_of_def two_block_lines_def)
  have nv: "non_virtualized (fresh_SysInfo ''host'' [])"
    by (simp add: non_virtualized_def fresh_SysInfo_def)
  from counts_bounded_by_lines [OF getCPUInfo_two_block [of 4] z] l1 l2 nv
    getCPUInfo_two_block [of 4] z
  show ?thesis by blast
qed

section \<open>Model name and cache size\<close>

lemma collapse_leading_space:
  "spec_collapse_spaces (CHR '' '' # cs) =
     CHR '' '' # spec_collapse_spaces (dropWhile (\<lambda>x. x = CHR '' '') cs)"
  by (induction cs) auto

lemma collapse_leading_other:
  "c \<noteq> CHR '' '' \<Longrightarrow> spec_collapse_spaces (c # cs) = c # spec_collapse_spaces cs"
  by (cases cs) auto

lemma ReplaceAll_collapse: "reExtraSpace_ReplaceAll s = spec_collapse_spaces s"
  by (induction s rule: reExtraSpace_ReplaceAll.induct)
    (simp_all add: collapse_leading_space collapse_leading_other)

lemma Replace1_none: "\<not> sublist old s \<Longrightarrow> strings_Replace1 s old new = s"
  by (induction s) (auto simp: sublist_Cons_right)

lemma prefix_within:
  assumes "prefix old (l @ r)" and "length old \<le> length l"
  shows "prefix old l"
proof -
  from assms(1) obtain zs where "l @ r = old @ zs" by (auto simp: prefix_def)
  then have "take (length old) (l @ r) = old" by simp
  with assms(2) have "take (length old) l = old" by simp
  then show ?thesis by (metis take_is_prefix)
qed

lemma Replace1_first:
  assumes "old \<noteq> []" and "\<not> sublist old (a @ butlast old)"
  shows "strings_Replace1 (a @ old @ b) old new = a @ new @ b"
  using assms(2)
proof (induction a)
  case Nil
  from assms(1) obtain c cs where "old @ b = c # cs" by (cases old) auto
  then show ?case by (simp del: append_assoc) (metis append_eq_conv_conj prefixI)
next
  case (Cons x a)
  from Cons.prems have np: "\<not> prefix old (x # a @ butlast old)"
    and ns: "\<not> sublist old (a @ butlast old)"
    by (simp_all add: sublist_Cons_right)
  have "x # a @ old @ b = (x # a @ butlast old) @ (last old # b)"
    using assms(1) by simp
  moreover have "length old \<le> length (x # a @ butlast old)"
    by simp
  ultimately have "\<not> prefix old (x # a @ old @ b)"
    using np prefix_within by metis
  with Cons.IH [OF ns] show ?case by simp
qed

lemma kb_form_iff:
  "kb_form v \<longleftrightarrow> (\<exists>ds. ds \<noteq> [] \<and> list_all is_digit ds \<and> v = ds @ '' KB'')"
proof
  assume k: "kb_form v"
  let ?ds = "take (length v - 3) v"
  from k have "?ds \<noteq> []" "list_all is_digit ?ds" "v = ?ds @ '' KB''"
    by (auto simp: kb_form_def) (metis append_take_drop_id)
  then show "\<exists>ds. ds \<noteq> [] \<and> list_all is_digit ds \<and> v = ds @ '' KB''" by blast
next
  assume "\<exists>ds. ds \<noteq> [] \<and> list_all is_digit ds \<and> v = ds @ '' KB''"
  then show "kb_form v" by (auto simp: kb_form_def)
qed

lemma FindStringSubmatch_KB:
  assumes "ds \<noteq> []" and "list_all is_digit ds"
  shows "reCacheSize_FindStringSubmatch (ds @ '' KB'') = [ds @ '' KB'', ds]"
proof -
  have nd: "\<not> is_digit (CHR '' '')" by (simp add: is_digit_def)
  from assms(2) have all: "\<forall>x \<in> set ds. is_digit x" by (simp add: list_all_iff)
  have "takeWhile is_digit (ds @ '' KB'') = ds"
    using all nd by (simp add: takeWhile_append2)
  moreover have "dropWhile is_digit (ds @ '' KB'') = '' KB''"
    using all nd by (simp add: dropWhile_append2)
  ultimately show ?thesis
    using assms(1) by (simp add: reCacheSize_FindStringSubmatch_def Let_def)
qed

lemma FindStringSubmatch_other:
  assumes "\<not> kb_form v"
  shows "reCacheSize_FindStringSubmatch v = []"
proof (rule ccontr)
  assume "reCacheSize_FindStringSubmatch v \<noteq> []"
  then have a: "takeWhile is_digit v \<noteq> []" and b: "dropWhile is_digit v = '' KB''"
    by (auto simp: reCacheSize_FindStringSubmatch_def Let_def split: if_splits)
  have "v = takeWhile is_digit v @ dropWhile is_digit v" by simp
  with b have "v = takeWhile is_digit v @ '' KB''" by simp
  moreover have "list_all is_digit (takeWhile is_digit v)"
    by (auto simp: list_all_iff dest: set_takeWhileD)
  ultimately have "kb_form v" using a kb_form_iff by blast
  with assms show False by simp
qed

lemma processLine_model:
  assumes "find_reTwoColumns text = Some (''model name'', v)" and "Model (CPU_st st) = []"
  shows "processLine p text st =
           Inr (st\<lparr>CPU_st := (CPU_st st)
                 \<lparr>Model := strings_Replace1 (reExtraSpace_ReplaceAll v) ''- '' ''-''\<rparr>\<rparr>)"
  using assms by (simp add: processLine_def Split2_find index_def)

lemma processLine_cache:
  assumes "find_reTwoColumns text = Some (''cache size'', v)" and "Cache (CPU_st st) = 0"
  shows "processLine p text st =
           (let m = reCacheSize_FindStringSubmatch v
            in if m \<noteq> [] then
                 (case strconv_ParseUint (m ! 1) 64 of
                    Some cache \<Rightarrow> Inr (st\<lparr>CPU_st := (CPU_st st)\<lparr>Cache := cache\<rparr>\<rparr>)
                  | None \<Rightarrow> Inr st)
               else Inr st)"
  using assms by (simp add: processLine_def Split2_find index_def)

lemma processLine_cache_frame:
  assumes "processLine p l st = Inr st'"
    and "\<forall>v. find_reTwoColumns l = Some (''cache size'', v) \<longrightarrow> \<not> kb_form v"
  shows "Cache (CPU_st st') = Cache (CPU_st st)"
proof (cases "find_reTwoColumns l")
  case None
  with assms(1) show ?thesis
    by (auto simp: processLine_def Split2_find index_def Let_def split: if_splits)
next
  case (Some kv)
  obtain k v where kv: "kv = (k, v)" by (cases kv)
  show ?thesis
  proof (cases "k = ''cache size''")
    case True
    with Some kv assms(2) have "reCacheSize_FindStringSubmatch v = []"
      by (simp add: FindStringSubmatch_other)
    with Some kv True assms(1) show ?thesis
      by (auto simp: processLine_def Split2_find index_def Let_def split: if_splits)
  next
    case False
    with Some kv assms(1) show ?thesis
      by (auto simp: processLine_def Split2_find index_def Let_def
          split: if_splits option.splits)
  qed
qed

lemma scanLines_cache_frame:
  "scanLines p ls st = Inr st' \<Longrightarrow>
   \<forall>l \<in> set ls. \<forall>v. find_reTwoColumns l = Some (''cache size'', v) \<longrightarrow> \<not> kb_form v \<Longrightarrow>
   Cache (CPU_st st') = Cache (CPU_st st)"
proof (induction ls arbitrary: st)
  case Nil
  then show ?case by simp
next
  case (Cons l ls)
  from Cons.prems(1) obtain st1 where s1: "processLine p l st = Inr st1"
    and s2: "scanLines p ls st1 = Inr st'"
    by (auto split: sum.splits)
  from Cons.prems(2) have a: "\<forall>v. find_reTwoColumns l = Some (''cache size'', v) \<longrightarrow> \<not> kb_form v"
    and b: "\<forall>l \<in> set ls. \<forall>v. find_reTwoColumns l = Some (''cache size'', v) \<longrightarrow> \<not> kb_form v"
    by simp_all
  from Cons.IH [OF s2 b] processLine_cache_frame [OF s1 a] show ?case by simp
qed

lemma getCPUInfo_Cache:
  assumes "getCPUInfo p n src si = Inr si'"
  shows "\<exists>st. scanLines p (lines_of src) (init_scan ((CPU_si si)\<lparr>Threads := n\<rparr>)) = Inr st \<and>
           Cache (CPU_si si') = Cache (CPU_st st)"
proof (cases src)
  case OpenFails
  with assms show ?thesis by (auto simp: getCPUInfo_def lines_of_def init_scan_def)
next
  case (Scanned ls e)
  with assms show ?thesis
    by (auto simp: getCPUInfo_def lines_of_def init_scan_def Let_def
        split: sum.splits if_splits)
qed

lemma Replace1_decomp:
  assumes "old \<noteq> []"
  shows "sublist old s \<Longrightarrow>
         \<exists>a b. s = a @ old @ b \<and> \<not> sublist old (a @ butlast old) \<and>
               strings_Replace1 s old new = a @ new @ b"
proof (induction s)
  case Nil
  with assms show ?case by simp
next
  case (Cons c cs)
  show ?case
  proof (cases "prefix old (c # cs)")
    case True
    then obtain b where b: "c # cs = old @ b" by (auto simp: prefix_def)
    have "\<not> sublist old (butlast old)"
    proof
      assume "sublist old (butlast old)"
      then have "length old \<le> length (butlast old)" by (rule sublist_length_le)
      moreover from assms have "length (butlast old) < length old"
        by (cases old rule: rev_cases) simp_all
      ultimately show False by arith
    qed
    moreover have "strings_Replace1 (c # cs) old new = new @ b"
    proof -
      from True have "strings_Replace1 (c # cs) old new = new @ drop (length old) (c # cs)"
        by simp
      moreover have "drop (length old) (c # cs) = b" unfolding b by simp
      ultimately show ?thesis by simp
    qed
    ultimately show ?thesis using b by (intro exI [of _ "[]"] exI [of _ b]) simp
  next
    case False
    with Cons.prems have "sublist old cs" by (simp add: sublist_Cons_right)
    from Cons.IH [OF this] obtain a b where ab: "cs = a @ old @ b"
      "\<not> sublist old (a @ butlast old)" "strings_Replace1 cs old new = a @ new @ b"
      by blast
    have "\<not> prefix old (c # a @ butlast old)"
    proof
      assume "prefix old (c # a @ butlast old)"
      then have "prefix old ((c # a @ butlast old) @ (last old # b))" by (rule prefix_prefix)
      moreover have "(c # a @ butlast old) @ (last old # b) = c # cs"
        using assms ab(1) by simp
      ultimately show False using False by simp
    qed
    with ab(2) have "\<not> sublist old ((c # a) @ butlast old)"
      by (simp add: sublist_Cons_right)
    moreover from False ab(3) have "strings_Replace1 (c # cs) old new = (c # a) @ new @ b"
      by simp
    moreover from ab(1) have "c # cs = (c # a) @ old @ b" by simp
    ultimately show ?thesis by blast
  qed
qed

lemma Replace1_normalised:
  "spec_normalised v (strings_Replace1 (reExtraSpace_ReplaceAll v) ''- '' ''-'')"
proof (cases "sublist ''- '' (spec_collapse_spaces v)")
  case True
  from Replace1_decomp [OF _ True, of "''-''"] True show ?thesis
    by (simp add: spec_normalised_def ReplaceAll_collapse)
next
  case False
  then show ?thesis
    by (simp add: spec_normalised_def ReplaceAll_collapse Replace1_none)
qed

lemma processLine_Model:
  assumes "processLine p l st = Inr st'"
  shows "Model (CPU_st st') = Model (CPU_st st) \<or>
         (\<exists>v. find_reTwoColumns l = Some (''model name'', v) \<and>
              spec_normalised v (Model (CPU_st st')))"
proof (cases "find_reTwoColumns l")
  case None
  with assms show ?thesis
    by (auto simp: processLine_def Split2_find index_def Let_def split: if_splits)
next
  case (Some kv)
  obtain k v where kv: "kv = (k, v)" by (cases kv)
  show ?thesis
  proof (cases "k = ''model name'' \<and> Model (CPU_st st) = []")
    case True
    with Some kv processLine_model [of l v st p] assms
    have "Model (CPU_st st') = strings_Replace1 (reExtraSpace_ReplaceAll v) ''- '' ''-''"
      by auto
    with Some kv True Replace1_normalised [of v] show ?thesis by simp
  next
    case False
    with Some kv assms have "Model (CPU_st st') = Model (CPU_st st)"
      by (auto simp: processLine_def Split2_find index_def Let_def
          split: if_splits option.splits)
    then show ?thesis by simp
  qed
qed

lemma scanLines_Model:
  "scanLines p ls st = Inr st' \<Longrightarrow>
   Model (CPU_st st') = Model (CPU_st st) \<or>
   (\<exists>l \<in> set ls. \<exists>v. find_reTwoColumns l = Some (''model name'', v) \<and>
      spec_normalised v (Model (CPU_st st')))"
proof (induction ls arbitrary: st)
  case Nil
  then show ?case by simp
next
  case (Cons l ls)
  from Cons.prems obtain st1 where s1: "processLine p l st = Inr st1"
    and s2: "scanLines p ls st1 = Inr st'"
    by (auto split: sum.splits)
  from Cons.IH [OF s2] processLine_Model [OF s1] show ?case by auto
qed

lemma getCPUInfo_Model:
  assumes "getCPUInfo p n src si = Inr si'"
  shows "\<exists>st. scanLines p (lines_of src) (init_scan ((CPU_si si)\<lparr>Threads := n\<rparr>)) = Inr st \<and>
           Model (CPU_si si') = Model (CPU_st st)"
proof (cases src)
  case OpenFails
  with assms show ?thesis by (auto simp: getCPUInfo_def lines_of_def init_scan_def)
next
  case (Scanned ls e)
  with assms show ?thesis
    by (auto simp: getCPUInfo_def lines_of_def init_scan_def Let_def
        split: sum.splits if_splits)
qed

text \<open>
  Claim C9. For every value of a model-name line met while the model is still empty, the
  model stored is the value with every run of spaces collapsed to one space and then the
  first occurrence of \<open>"- "\<close> replaced by \<open>"-"\<close>: cut at its first occurrence the
  collapsed string becomes the text before it, a dash and the text after it, and without
  an occurrence it is stored as it is. The model \<open>getCPUInfo\<close> returns for a stream, when
  it was empty at the start, is empty or the normal form of the value of a model-name line
  of the stream.
\<close>

theorem model_name_normalised:
  "(find_reTwoColumns text = Some (''model name'', v) \<and> Model (CPU_st st) = [] \<longrightarrow>
      (\<exists>st'. processLine p text st = Inr st' \<and>
         (\<forall>a b. spec_collapse_spaces v = a @ ''- '' @ b \<and> \<not> sublist ''- '' (a @ ''-'') \<longrightarrow>
                Model (CPU_st st') = a @ ''-'' @ b) \<and>
         (\<not> sublist ''- '' (spec_collapse_spaces v) \<longrightarrow>
            Model (CPU_st st') = spec_collapse_spaces v))) \<and>
   (getCPUInfo p n src si = Inr si' \<and> Model (CPU_si si) = [] \<longrightarrow>
      Model (CPU_si si') = [] \<or>
      (\<exists>l \<in> set (lines_of src). \<exists>w. find_reTwoColumns l = Some (''model name'', w) \<and>
         spec_normalised w (Model (CPU_si si'))))"
proof (intro conjI impI)
  assume h: "find_reTwoColumns text = Some (''model name'', v) \<and> Model (CPU_st st) = []"
  let ?m = "strings_Replace1 (spec_collapse_spaces v) ''- '' ''-''"
  have first: "\<forall>a b. spec_collapse_spaces v = a @ ''- '' @ b \<and> \<not> sublist ''- '' (a @ ''-'') \<longrightarrow>
      ?m = a @ ''-'' @ b"
  proof (intro allI impI)
    fix a b
    assume d: "spec_collapse_spaces v = a @ ''- '' @ b \<and> \<not> sublist ''- '' (a @ ''-'')"
    then have "\<not> sublist ''- '' (a @ butlast ''- '')" by simp
    then have "strings_Replace1 (a @ ''- '' @ b) ''- '' ''-'' = a @ ''-'' @ b"
      by (intro Replace1_first) simp_all
    with d show "?m = a @ ''-'' @ b" by simp
  qed
  have none: "\<not> sublist ''- '' (spec_collapse_spaces v) \<longrightarrow> ?m = spec_collapse_spaces v"
    by (simp add: Replace1_none)
  from h have "processLine p text st =
      Inr (st\<lparr>CPU_st := (CPU_st st)
            \<lparr>Model := strings_Replace1 (reExtraSpace_ReplaceAll v) ''- '' ''-''\<rparr>\<rparr>)"
    by (intro processLine_model) simp_all
  with first none
  show "\<exists>st'. processLine p text st = Inr st' \<and>
         (\<forall>a b. spec_collapse_spaces v = a @ ''- '' @ b \<and> \<not> sublist ''- '' (a @ ''-'') \<longrightarrow>
                Model (CPU_st st') = a @ ''-'' @ b) \<and>
         (\<not> sublist ''- '' (spec_collapse_spaces v) \<longrightarrow>
            Model (CPU_st st') = spec_collapse_spaces v)"
    by (simp add: ReplaceAll_collapse)
next
  assume h: "getCPUInfo p n src si = Inr si' \<and> Model (CPU_si si) = []"
  then obtain st where st: "scanLines p (lines_of src) (init_scan ((CPU_si si)\<lparr>Threads := n\<rparr>)) = Inr st"
    and m: "Model (CPU_si si') = Model (CPU_st st)"
    using getCPUInfo_Model by blast
  from scanLines_Model [OF st] m h
  show "Model (CPU_si si') = [] \<or>
      (\<exists>l \<in> set (lines_of src). \<exists>w. find_reTwoColumns l = Some (''model name'', w) \<and>
         spec_normalised w (Model (CPU_si si')))"
    by (simp add: init_scan_def)
qed

text \<open>
  A model name with runs of spaces and two occurrences of \<open>"- "\<close>: only the first one
  loses its space; a stream with the line twice stores the same model.
\<close>

theorem model_name_normalised_witness:
  "find_reTwoColumns model_line = Some (''model name'', ''Intel(R)  Xeon(R)   CPU E5- 2680 - v3'') \<and>
   Model (CPU_st (init_scan zero_CPU)) = [] \<and>
   spec_collapse_spaces ''Intel(R)  Xeon(R)   CPU E5- 2680 - v3'' =
     ''Intel(R) Xeon(R) CPU E5'' @ ''- '' @ ''2680 - v3'' \<and>
   \<not> sublist ''- '' (''Intel(R) Xeon(R) CPU E5'' @ ''-'') \<and>
   (\<exists>st'. processLine (\<lambda>_. None) model_line (init_scan zero_CPU) = Inr st' \<and>
      Model (CPU_st st') = ''Intel(R) Xeon(R) CPU E5-2680 - v3'') \<and>
   Model (CPU_si (fresh_SysInfo ''host'' [])) = [] \<and>
   (\<exists>si'. getCPUInfo (\<lambda>_. None) 4 (Scanned [model_line, model_line] False)
            (fresh_SysInfo ''host'' []) = Inr si' \<and>
      Model (CPU_si si') = ''Intel(R) Xeon(R) CPU E5-2680 - v3'' \<and>
      spec_normalised ''Intel(R)  Xeon(R)   CPU E5- 2680 - v3'' (Model (CPU_si si')))"
proof -
  let ?v = "''Intel(R)  Xeon(R)   CPU E5- 2680 - v3''"
  let ?si = "fresh_SysInfo ''host'' []"
  let ?src = "Scanned [model_line, model_line] False"
  have a: "find_reTwoColumns model_line = Some (''model name'', ?v)"
    by (simp add: model_line_def record_line_def match_reTwoColumns_def)
  have b: "Model (CPU_st (init_scan zero_CPU)) = []"
    by (simp add: init_scan_def zero_CPU_def)
  have c: "spec_collapse_spaces ?v = ''Intel(R) Xeon(R) CPU E5'' @ ''- '' @ ''2680 - v3''"
    by simp
  have d: "\<not> sublist ''- '' (''Intel(R) Xeon(R) CPU E5'' @ ''-'')"
    by (simp add: sublist_code)
  have e: "Model (CPU_si ?si) = []" by (simp add: fresh_SysInfo_def zero_CPU_def)
  have g: "\<exists>si'. getCPUInfo (\<lambda>_. None) 4 ?src ?si = Inr si' \<and>
      Model (CPU_si si') = ''Intel(R) Xeon(R) CPU E5-2680 - v3''"
    using c by (simp add: getCPUInfo_def processLine_def Split2_find a index_def
        fresh_SysInfo_def zero_CPU_def ReplaceAll_collapse)
  then obtain si' where si': "getCPUInfo (\<lambda>_. None) 4 ?src ?si = Inr si'"
    and ms: "Model (CPU_si si') = ''Intel(R) Xeon(R) CPU E5-2680 - v3''"
    by blast
  note inst = model_name_normalised [of model_line ?v "init_scan zero_CPU" "\<lambda>_. None" 4 ?src ?si si']
  from inst a b obtain st'
    where p: "processLine (\<lambda>_. None) model_line (init_scan zero_CPU) = Inr st'"
      and f: "\<forall>a b. spec_collapse_spaces ?v = a @ ''- '' @ b \<and>
            \<not> sublist ''- '' (a @ ''-'') \<longrightarrow> Model (CPU_st st') = a @ ''-'' @ b"
    by blast
  from f c d have "Model (CPU_st st') = ''Intel(R) Xeon(R) CPU E5'' @ ''-'' @ ''2680 - v3''"
    by blast
  then have r1: "Model (CPU_st st') = ''Intel(R) Xeon(R) CPU E5-2680 - v3''" by simp
  from inst si' e have "Model (CPU_si si') = [] \<or>
      (\<exists>l \<in> set (lines_of ?src). \<exists>w. find_reTwoColumns l = Some (''model name'', w) \<and>
         spec_normalised w (Model (CPU_si si')))"
    by blast
  with ms a have r2: "spec_normalised ?v (Model (CPU_si si'))"
    by (auto simp: lines_of_def)
  from a b c d p r1 e si' ms r2 show ?thesis by blast
qed

text \<open>
  Claim C10. For every value of a cache-size line met while the cache size is still 0,
  the cache size stays 0 unless the value has the form \<open><digits> KB\<close>, and it becomes the
  number the digits denote when the value has that form and the number fits 64 bits; a
  stream in which no cache-size line has that form leaves the cache size at 0.
\<close>

theorem cache_size_only_KB_form:
  "(find_reTwoColumns text = Some (''cache size'', v) \<and> Cache (CPU_st st) = 0 \<longrightarrow>
      (\<exists>st'. processLine p text st = Inr st' \<and>
         (\<not> kb_form v \<longrightarrow> Cache (CPU_st st') = 0) \<and>
         (\<forall>ds. ds \<noteq> [] \<and> list_all is_digit ds \<and> v = ds @ '' KB'' \<and> decimal ds < 2 ^ 64 \<longrightarrow>
            Cache (CPU_st st') = decimal ds))) \<and>
   (getCPUInfo p n src si = Inr si' \<and> Cache (CPU_si si) = 0 \<and>
    (\<forall>l \<in> set (lines_of src). \<forall>w. find_reTwoColumns l = Some (''cache size'', w) \<longrightarrow> \<not> kb_form w) \<longrightarrow>
      Cache (CPU_si si') = 0)"
proof (intro conjI impI)
  assume h: "find_reTwoColumns text = Some (''cache size'', v) \<and> Cache (CPU_st st) = 0"
  then have f: "find_reTwoColumns text = Some (''cache size'', v)" and z: "Cache (CPU_st st) = 0"
    by simp_all
  note pl = processLine_cache [OF f z, of p]
  show "\<exists>st'. processLine p text st = Inr st' \<and>
         (\<not> kb_form v \<longrightarrow> Cache (CPU_st st') = 0) \<and>
         (\<forall>ds. ds \<noteq> [] \<and> list_all is_digit ds \<and> v = ds @ '' KB'' \<and> decimal ds < 2 ^ 64 \<longrightarrow>
            Cache (CPU_st st') = decimal ds)"
  proof (cases "kb_form v")
    case False
    then have "reCacheSize_FindStringSubmatch v = []" by (rule FindStringSubmatch_other)
    with pl have "processLine p text st = Inr st" by simp
    with False z kb_form_iff show ?thesis by auto
  next
    case True
    then obtain ds where ds: "ds \<noteq> []" "list_all is_digit ds" "v = ds @ '' KB''"
      using kb_form_iff by blast
    then have m: "reCacheSize_FindStringSubmatch v = [v, ds]"
      by (simp add: FindStringSubmatch_KB)
    have uniq: "e = ds" if "v = e @ '' KB''" for e
      using that ds(3) by simp
    show ?thesis
    proof (cases "decimal ds < 2 ^ 64")
      case True
      with pl m ds have "processLine p text st = Inr (st\<lparr>CPU_st := (CPU_st st)\<lparr>Cache := decimal ds\<rparr>\<rparr>)"
        by (simp add: strconv_ParseUint_def)
      with \<open>kb_form v\<close> uniq show ?thesis by auto
    next
      case False
      with pl m ds have "processLine p text st = Inr st"
        by (simp add: strconv_ParseUint_def)
      with \<open>kb_form v\<close> uniq False show ?thesis by auto
    qed
  qed
next
  assume h: "getCPUInfo p n src si = Inr si' \<and> Cache (CPU_si si) = 0 \<and>
    (\<forall>l \<in> set (lines_of src). \<forall>w. find_reTwoColumns l = Some (''cache size'', w) \<longrightarrow> \<not> kb_form w)"
  then obtain st where st: "scanLines p (lines_of src) (init_scan ((CPU_si si)\<lparr>Threads := n\<rparr>)) = Inr st"
    and c: "Cache (CPU_si si') = Cache (CPU_st st)"
    using getCPUInfo_Cache by blast
  from h have "\<forall>l \<in> set (lines_of src). \<forall>w. find_reTwoColumns l = Some (''cache size'', w) \<longrightarrow> \<not> kb_form w"
    by simp
  from scanLines_cache_frame [OF st this] c h show "Cache (CPU_si si') = 0"
    by (simp add: init_scan_def)
qed

text \<open>
  The values \<open>30MB\<close> and \<open>1024\<close> leave the cache size at 0, the value
  \<open>36608 KB\<close> sets it to 36608.
\<close>

theorem cache_size_only_KB_form_witness:
  "find_reTwoColumns (record_line ''cache size'' ''30MB'') = Some (''cache size'', ''30MB'') \<and>
   \<not> kb_form ''30MB'' \<and>
   (\<exists>st'. processLine (\<lambda>_. None) (record_line ''cache size'' ''30MB'') (init_scan zero_CPU) = Inr st' \<and>
      Cache (CPU_st st') = 0) \<and>
   find_reTwoColumns (record_line ''cache size'' ''36608 KB'') = Some (''cache size'', ''36608 KB'') \<and>
   list_all is_digit ''36608'' \<and> decimal ''36608'' < 2 ^ 64 \<and>
   (\<exists>st'. processLine (\<lambda>_. None) (record_line ''cache size'' ''36608 KB'') (init_scan zero_CPU) = Inr st' \<and>
      Cache (CPU_st st') = 36608) \<and>
   \<not> kb_form ''1024'' \<and>
   Cache (CPU_si (fresh_SysInfo ''host'' [])) = 0 \<and>
   (\<exists>si'. getCPUInfo (\<lambda>_. None) 4
      (Scanned [record_line ''cache size'' ''30MB'', record_line ''cache size'' ''1024''] False)
      (fresh_SysInfo ''host'' []) = Inr si' \<and> Cache (CPU_si si') = 0)"
proof -
  let ?st = "init_scan zero_CPU"
  let ?si = "fresh_SysInfo ''host'' []"
  let ?src = "Scanned [record_line ''cache size'' ''30MB'', record_line ''cache size'' ''1024''] False"
  have a: "find_reTwoColumns (record_line ''cache size'' ''30MB'') = Some (''cache size'', ''30MB'')"
    by (simp add: record_line_def match_reTwoColumns_def)
  have a': "find_reTwoColumns (record_line ''cache size'' ''1024'') = Some (''cache size'', ''1024'')"
    by (simp add: record_line_def match_reTwoColumns_def)
  have b: "find_reTwoColumns (record_line ''cache size'' ''36608 KB'') =
      Some (''cache size'', ''36608 KB'')"
    by (simp add: record_line_def match_reTwoColumns_def)
  have z: "Cache (CPU_st ?st) = 0" by (simp add: init_scan_def zero_CPU_def)
  have n1: "\<not> kb_form ''30MB''" by (simp add: kb_form_def)
  have n2: "\<not> kb_form ''1024''" by (simp add: kb_form_def)
  have d: "list_all is_digit ''36608''" by (simp add: is_digit_def)
  have v: "decimal ''36608'' = 36608" by (simp add: decimal_def)
  have zs: "Cache (CPU_si ?si) = 0" by (simp add: fresh_SysInfo_def zero_CPU_def)
  have g: "\<exists>si'. getCPUInfo (\<lambda>_. None) 4 ?src ?si = Inr si'"
    by (simp add: getCPUInfo_def processLine_def Split2_find a a' index_def
        reCacheSize_FindStringSubmatch_def is_digit_def fresh_SysInfo_def zero_CPU_def)
  then obtain si' where si': "getCPUInfo (\<lambda>_. None) 4 ?src ?si = Inr si'" by blast
  have all: "\<forall>l \<in> set (lines_of ?src). \<forall>w. find_reTwoColumns l = Some (''cache size'', w) \<longrightarrow> \<not> kb_form w"
    using a a' n1 n2 by (simp add: lines_of_def)
  from cache_size_only_KB_form [of "record_line ''cache size'' ''30MB''" "''30MB''" ?st "\<lambda>_. None"
      4 ?src ?si si'] a z n1 si' zs all
  have r1: "\<exists>st'. processLine (\<lambda>_. None) (record_line ''cache size'' ''30MB'') ?st = Inr st' \<and>
      Cache (CPU_st st') = 0"
    and r3: "Cache (CPU_si si') = 0"
    by blast+
  from cache_size_only_KB_form [of "record_line ''cache size'' ''36608 KB''" "''36608 KB''" ?st
      "\<lambda>_. None" 4 ?src ?si si'] b z
  obtain st' where p: "processLine (\<lambda>_. None) (record_line ''cache size'' ''36608 KB'') ?st = Inr st'"
    and f: "\<forall>ds. ds \<noteq> [] \<and> list_all is_digit ds \<and> ''36608 KB'' = ds @ '' KB'' \<and> decimal ds < 2 ^ 64 \<longrightarrow>
            Cache (CPU_st st') = decimal ds"
    by blast
  have "''36608'' \<noteq> [] \<and> list_all is_digit ''36608'' \<and> ''36608 KB'' = ''36608'' @ '' KB'' \<and>
      decimal ''36608'' < 2 ^ 64"
    using d v by simp
  with f have "Cache (CPU_st st') = decimal ''36608''" by blast
  with v p have r2: "\<exists>st'. processLine (\<lambda>_. None) (record_line ''cache size'' ''36608 KB'') ?st = Inr st' \<and>
      Cache (CPU_st st') = 36608"
    by auto
  from a n1 r1 b d v r2 n2 zs si' r3 show ?thesis by auto
qed

end
